theory Spec2Isabelle
  imports Main
begin

text \<open>
  A model of the building-exploration page: the controller, model and view of
  \<^verbatim>\<open>Content/js/building-types.js\<close> (marker visibility, selection of a space, the
  carousel, the binding of markers to spaces) and the adapter of
  \<^verbatim>\<open>Content/js/data-adapter.js\<close>. The definitions come first, each with the lines of
  the source it renders; the properties follow.
\<close>

section \<open>Configuration constants\<close>

text \<open>
  The entries of \<^verbatim>\<open>APP_CONFIG\<close> (building-types.js, lines 20-103) that the modelled
  operations read.
\<close>

definition pinsGroup :: string where
  "pinsGroup = ''K-12-Pins-Roof-Closed''"

definition buildingRoof :: string where
  "buildingRoof = ''school-roof''"

definition markerGroup :: string where
  "markerGroup = ''gh-marker-group''"

definition childVisible :: string where
  "childVisible = ''gh-child-visible''"

definition childHidden :: string where
  "childHidden = ''gh-child-hidden''"

definition markerDimmed :: string where
  "markerDimmed = ''gh-marker-dimmed''"

section \<open>SVG documents\<close>

text \<open>
  An SVG document is the list of its elements in document order; an element is
  addressed by its position in that list and names its parent by position. What the
  code reads of an element is kept: \<^verbatim>\<open>tagName\<close>, \<^verbatim>\<open>id\<close> (the empty string when the
  element has no id attribute), \<^verbatim>\<open>classList\<close>, the attribute \<^verbatim>\<open>data-space-id\<close>
  (\<open>None\<close> when absent) and \<^verbatim>\<open>dataset.ghBound === 'true'\<close>.
\<close>

record element =
  tagName :: string
  elem_id :: string
  parent :: "nat option"
  classList :: "string list"
  dataSpaceId :: "string option"
  ghBound :: bool

type_synonym svg_document = "element list"

text \<open>\<^verbatim>\<open>doc.getElementById(id)\<close>: the first element in document order with that id;
  an empty id matches nothing.\<close>

definition getElementById :: "svg_document \<Rightarrow> string \<Rightarrow> nat option" where
  "getElementById doc i =
     (if i = [] then None else find (\<lambda>el. elem_id (doc ! el) = i) [0..<length doc])"

text \<open>\<^verbatim>\<open>doc.querySelector(tag)\<close> and \<^verbatim>\<open>doc.querySelectorAll(tag)\<close> for a type selector.\<close>

definition querySelector :: "svg_document \<Rightarrow> string \<Rightarrow> nat option" where
  "querySelector doc t = find (\<lambda>el. tagName (doc ! el) = t) [0..<length doc]"

definition querySelectorAll :: "svg_document \<Rightarrow> string \<Rightarrow> nat list" where
  "querySelectorAll doc t = filter (\<lambda>el. tagName (doc ! el) = t) [0..<length doc]"

text \<open>\<^verbatim>\<open>el.children\<close>, in document order.\<close>

definition children_of :: "svg_document \<Rightarrow> nat \<Rightarrow> nat list" where
  "children_of doc p = filter (\<lambda>el. parent (doc ! el) = Some p) [0..<length doc]"

text \<open>\<^verbatim>\<open>Array.from(el.children).filter(el => el.tagName === 'g')\<close>.\<close>

definition child_groups :: "svg_document \<Rightarrow> nat \<Rightarrow> nat list" where
  "child_groups doc p = filter (\<lambda>el. tagName (doc ! el) = ''g'') (children_of doc p)"

text \<open>The three operations of \<^verbatim>\<open>classList\<close> the code uses, on the token list of
  an element: \<^verbatim>\<open>add\<close> appends a token that is not there yet, \<^verbatim>\<open>remove\<close> deletes it.\<close>

definition tokens_add :: "string \<Rightarrow> string list \<Rightarrow> string list" where
  "tokens_add c cs = (if c \<in> set cs then cs else cs @ [c])"

definition tokens_remove :: "string \<Rightarrow> string list \<Rightarrow> string list" where
  "tokens_remove c cs = removeAll c cs"

definition classList_contains :: "nat \<Rightarrow> string \<Rightarrow> svg_document \<Rightarrow> bool" where
  "classList_contains el c doc = (c \<in> set (classList (doc ! el)))"

definition classList_add :: "nat \<Rightarrow> string \<Rightarrow> svg_document \<Rightarrow> svg_document" where
  "classList_add el c doc =
     doc[el := (doc ! el)\<lparr>classList := tokens_add c (classList (doc ! el))\<rparr>]"

definition classList_remove :: "nat \<Rightarrow> string \<Rightarrow> svg_document \<Rightarrow> svg_document" where
  "classList_remove el c doc =
     doc[el := (doc ! el)\<lparr>classList := tokens_remove c (classList (doc ! el))\<rparr>]"

section \<open>Marker visibility (SpaceView)\<close>

text \<open>
  Both visibility functions look the marker container up the same way (lines 669-675
  and 723-733): the element with id \<^verbatim>\<open>APP_CONFIG.svg.pinsGroup\<close>, else the first
  \<^verbatim>\<open>svg\<close> element, else nothing.
\<close>

definition find_container :: "svg_document \<Rightarrow> nat option" where
  "find_container doc =
     (case getElementById doc pinsGroup of
        Some container \<Rightarrow> Some container
      | None \<Rightarrow> querySelector doc ''svg'')"

text \<open>The body of \<^verbatim>\<open>groups.forEach\<close> in \<^verbatim>\<open>initMarkerVisibility\<close> (lines 681-702).\<close>

definition hide_child :: "nat \<Rightarrow> svg_document \<Rightarrow> svg_document" where
  "hide_child child doc = classList_remove child childVisible (classList_add child childHidden doc)"

definition show_child :: "nat \<Rightarrow> svg_document \<Rightarrow> svg_document" where
  "show_child child doc = classList_remove child childHidden (classList_add child childVisible doc)"

definition init_group :: "nat \<Rightarrow> svg_document \<Rightarrow> svg_document" where
  "init_group grp doc =
     (if elem_id (doc ! grp) = buildingRoof then doc
      else
        let doc1 = classList_add grp markerGroup doc in
        (case child_groups doc1 grp of
           [] \<Rightarrow> doc1
         | first # rest \<Rightarrow> fold hide_child rest (show_child first doc1)))"

text \<open>\<^verbatim>\<open>initMarkerVisibility(doc)\<close> (lines 664-703); \<open>None\<close> is a document that is
  not there (\<^verbatim>\<open>if (!doc) return\<close>).\<close>

definition initMarkerVisibility :: "svg_document option \<Rightarrow> svg_document option" where
  "initMarkerVisibility d =
     (case d of
        None \<Rightarrow> None
      | Some doc \<Rightarrow>
          (case find_container doc of
             None \<Rightarrow> Some doc
           | Some container \<Rightarrow> Some (fold init_group (child_groups doc container) doc)))"

text \<open>JavaScript truthiness of an \<^verbatim>\<open>activeId\<close> that is a string or \<^verbatim>\<open>null\<close>:
  \<^verbatim>\<open>null\<close> and the empty string are falsy.\<close>

definition truthy_id :: "string option \<Rightarrow> bool" where
  "truthy_id activeId = (case activeId of None \<Rightarrow> False | Some s \<Rightarrow> s \<noteq> [])"

text \<open>The body of \<^verbatim>\<open>groups.forEach\<close> in \<^verbatim>\<open>updateMarkerVisibility\<close> (lines 738-754).\<close>

definition dim_group :: "string option \<Rightarrow> nat \<Rightarrow> svg_document \<Rightarrow> svg_document" where
  "dim_group activeId grp doc =
     (if elem_id (doc ! grp) = buildingRoof then doc
      else if truthy_id activeId \<and> Some (elem_id (doc ! grp)) \<noteq> activeId then
        (if \<not> classList_contains grp markerDimmed doc
         then classList_add grp markerDimmed doc else doc)
      else
        (if classList_contains grp markerDimmed doc
         then classList_remove grp markerDimmed doc else doc))"

text \<open>
  The host page: the two \<^verbatim>\<open><object>\<close> elements the modelled code looks up with
  \<^verbatim>\<open>document.getElementById\<close> (\<open>None\<close> when the page has no such element), each
  with its class list, its \<^verbatim>\<open>data\<close> attribute and its \<^verbatim>\<open>contentDocument\<close>
  (\<open>None\<close> while it is not loaded).
\<close>

record svg_object =
  object_classList :: "string list"
  object_data :: "string option"
  contentDocument :: "svg_document option"

record page =
  overlaySvg :: "svg_object option"
  buildingMarkersSvg :: "svg_object option"

text \<open>\<^verbatim>\<open>updateMarkerVisibility(activeId)\<close> (lines 711-756).\<close>

definition updateMarkerVisibility :: "string option \<Rightarrow> page \<Rightarrow> page" where
  "updateMarkerVisibility activeId pg =
     (case buildingMarkersSvg pg of
        None \<Rightarrow> pg
      | Some svgObj \<Rightarrow>
          (case contentDocument svgObj of
             None \<Rightarrow> pg
           | Some doc \<Rightarrow>
               (case find_container doc of
                  None \<Rightarrow> pg
                | Some container \<Rightarrow>
                    pg\<lparr>buildingMarkersSvg := Some (svgObj\<lparr>contentDocument :=
                       Some (fold (dim_group activeId) (child_groups doc container) doc)\<rparr>)\<rparr>)))"

text \<open>Observers used to state the properties: the markers document of a page, the
  marker groups of a document (the groups both loops act on: the \<^verbatim>\<open>g\<close> children of
  the container other than the roof), and whether a group is dimmed.\<close>

definition markersDocument :: "page \<Rightarrow> svg_document option" where
  "markersDocument pg =
     (case buildingMarkersSvg pg of None \<Rightarrow> None | Some svgObj \<Rightarrow> contentDocument svgObj)"

definition marker_groups :: "svg_document \<Rightarrow> nat list" where
  "marker_groups doc =
     (case find_container doc of
        None \<Rightarrow> []
      | Some container \<Rightarrow>
          filter (\<lambda>g. elem_id (doc ! g) \<noteq> buildingRoof) (child_groups doc container))"

definition is_dimmed :: "svg_document \<Rightarrow> nat \<Rightarrow> bool" where
  "is_dimmed doc g = classList_contains g markerDimmed doc"

section \<open>The model (SpaceModel)\<close>

text \<open>
  A space of the view model, with the fields the modelled operations read (the
  content blocks \<^verbatim>\<open>overview\<close> and \<^verbatim>\<open>designNarrative\<close> are read by the renderers
  only), and the state of \<^verbatim>\<open>SpaceModel\<close> (lines 161-227).
\<close>

record equipment =
  equipment_id :: string
  title :: string

text \<open>
  The \<^verbatim>\<open>id\<close> of a space is what the adapter's \<^verbatim>\<open>generateId\<close> returned for the name
  of the space (data-adapter.js, line 99): a string, or the function that the lookup
  in the table of overrides found under the slug among the properties every object
  inherits. \<^verbatim>\<open>String(id)\<close> is the string itself and, for a built-in function, its
  source text.
\<close>

datatype id_value = StringId string | FunctionId string

fun id_text :: "id_value \<Rightarrow> string" where
  "id_text (StringId s) = s"
| "id_text (FunctionId f) = ''function '' @ f @ ''() { [native code] }''"

record space =
  space_id :: id_value
  name :: string
  systemName :: string
  markerImg :: string
  systemEquipment :: "equipment list"

record SpaceModel =
  spaces :: "space list"
  currentSpaceId :: "string option"
  currentTab :: string
  currentProductIndex :: int

text \<open>The constructor (lines 162-169).\<close>

definition new_SpaceModel :: SpaceModel where
  "new_SpaceModel =
     \<lparr>spaces = [], currentSpaceId = None, currentTab = ''overview'', currentProductIndex = 0\<rparr>"

text \<open>\<^verbatim>\<open>getSpace(id)\<close> (lines 200-202) for a string \<^verbatim>\<open>id\<close>, as its documentation
  types the parameter: \<^verbatim>\<open>Array.prototype.find\<close>, \<open>None\<close> for \<^verbatim>\<open>undefined\<close>;
  \<^verbatim>\<open>s.id === id\<close> holds when \<^verbatim>\<open>s.id\<close> is that string.\<close>

definition getSpace :: "SpaceModel \<Rightarrow> string \<Rightarrow> space option" where
  "getSpace m i = find (\<lambda>s. space_id s = StringId i) (spaces m)"

definition setCurrentSpace :: "string \<Rightarrow> SpaceModel \<Rightarrow> SpaceModel" where
  "setCurrentSpace i m = m\<lparr>currentSpaceId := Some i\<rparr>"

text \<open>\<^verbatim>\<open>getCurrentSpace()\<close> (lines 224-226); no space has the id \<^verbatim>\<open>null\<close>.\<close>

definition getCurrentSpace :: "SpaceModel \<Rightarrow> space option" where
  "getCurrentSpace m = (case currentSpaceId m of None \<Rightarrow> None | Some i \<Rightarrow> getSpace m i)"

section \<open>The overlay (SpaceView)\<close>

text \<open>\<^verbatim>\<open>replaceLandingSvg(markerImg)\<close> (lines 557-569).\<close>

definition replaceLandingSvg :: "string \<Rightarrow> page \<Rightarrow> page" where
  "replaceLandingSvg img pg =
     (let pg1 =
        (case overlaySvg pg of
           None \<Rightarrow> pg
         | Some overlay \<Rightarrow>
             pg\<lparr>overlaySvg := Some (overlay\<lparr>
                object_classList := tokens_add ''is-visible'' (object_classList overlay),
                object_data := Some img\<rparr>)\<rparr>)
      in
        (case buildingMarkersSvg pg1 of
           None \<Rightarrow> pg1
         | Some markersLayer \<Rightarrow>
             pg1\<lparr>buildingMarkersSvg := Some (markersLayer\<lparr>
                object_classList := tokens_add ''is-hidden'' (object_classList markersLayer)\<rparr>)\<rparr>))"

section \<open>The controller (SpaceController)\<close>

text \<open>
  The application state: the model, the page the view acts on, the click listeners
  \<^verbatim>\<open>attachInteraction\<close> has put on elements of the markers document (element, space
  id) and the controller's \<^verbatim>\<open>boundElements\<close>.
\<close>

record app =
  model :: SpaceModel
  view_page :: page
  clickListeners :: "(nat \<times> id_value) list"
  boundElements :: "nat list"

text \<open>\<^verbatim>\<open>handleMarkerClick(spaceId)\<close> (lines 1229-1242) for a string \<^verbatim>\<open>spaceId\<close>, as
  its documentation types the parameter.\<close>

definition handleMarkerClick :: "string \<Rightarrow> app \<Rightarrow> app" where
  "handleMarkerClick spaceId a =
     (case getSpace (model a) spaceId of
        None \<Rightarrow> a
      | Some space \<Rightarrow>
          a\<lparr>model := setCurrentSpace spaceId (model a),
            view_page := updateMarkerVisibility (Some spaceId)
                           (replaceLandingSvg (markerImg space) (view_page a))\<rparr>)"

text \<open>\<^verbatim>\<open>nextProduct()\<close> and \<^verbatim>\<open>prevProduct()\<close> (lines 936-960). The call of
  \<^verbatim>\<open>updateProductVisibility\<close> toggles classes of the carousel's slides, which are
  not part of the state here.\<close>

definition nextProduct :: "app \<Rightarrow> app" where
  "nextProduct a =
     (case getCurrentSpace (model a) of
        None \<Rightarrow> a
      | Some space \<Rightarrow>
          if length (systemEquipment space) = 0 then a
          else
            let idx = currentProductIndex (model a) + 1;
                idx = (if idx \<ge> int (length (systemEquipment space)) then 0 else idx)
            in a\<lparr>model := (model a)\<lparr>currentProductIndex := idx\<rparr>\<rparr>)"

definition prevProduct :: "app \<Rightarrow> app" where
  "prevProduct a =
     (case getCurrentSpace (model a) of
        None \<Rightarrow> a
      | Some space \<Rightarrow>
          if length (systemEquipment space) = 0 then a
          else
            let idx = currentProductIndex (model a) - 1;
                idx = (if idx < 0 then int (length (systemEquipment space)) - 1 else idx)
            in a\<lparr>model := (model a)\<lparr>currentProductIndex := idx\<rparr>\<rparr>)"

text \<open>
  The click listener of a carousel dot (lines 509-514) is an arrow function inside
  \<^verbatim>\<open>SpaceView.renderProductCarousel\<close>, so its \<^verbatim>\<open>this\<close> is the view. The properties a
  \<^verbatim>\<open>SpaceView\<close> has are the ones its constructor assigns (lines 237-268) and the
  methods of its class; \<^verbatim>\<open>this.model\<close> is \<^verbatim>\<open>undefined\<close> unless \<^verbatim>\<open>model\<close> is among
  them, and assigning to a property of \<^verbatim>\<open>undefined\<close> throws a \<^verbatim>\<open>TypeError\<close>.
\<close>

datatype js_error = TypeError | Error string

definition SpaceView_properties :: "string list" where
  "SpaceView_properties =
     [''modal'', ''modalTitle'', ''modalSystemName'', ''modalTabs'', ''tabContents'',
      ''detailTitle'', ''detailDescription'', ''narrativeContent'', ''productCarousel'',
      ''buildingMapObject'', ''buildingMarkersObject'', ''spaceSvgObject'', ''popover'',
      ''isPopoverVisible'', ''SPACE_POPOVER_OFFSET_X'', ''SPACE_POPOVER_OFFSET_Y'',
      ''constructor'', ''renderPageContent'', ''showModal'', ''hideModal'',
      ''renderSpaceDetails'', ''renderProductCarousel'', ''preloadImages'', ''loadSpaceSvg'',
      ''replaceLandingSvg'', ''restoreLandingSvg'', ''showPopover'', ''hidePopover'',
      ''setTabsState'', ''initMarkerVisibility'', ''updateMarkerVisibility'', ''switchScene'']"

definition dot_click :: "int \<Rightarrow> app \<Rightarrow> js_error + app" where
  "dot_click idx a =
     (if ''model'' \<in> set SpaceView_properties
      then Inr (a\<lparr>model := (model a)\<lparr>currentProductIndex := idx\<rparr>\<rparr>)
      else Inl TypeError)"

section \<open>Binding markers to spaces (SpaceController.attachSvgHandlers)\<close>

text \<open>
  The part of the state \<^verbatim>\<open>attachInteraction\<close> acts on: the markers document, the
  click listeners and \<^verbatim>\<open>boundElements\<close>. Cursor and hover styling are not modelled.
\<close>

record binding =
  b_doc :: svg_document
  b_listeners :: "(nat \<times> id_value) list"
  b_bound :: "nat list"

text \<open>\<^verbatim>\<open>attachInteraction(el, spaceId)\<close> (lines 1112-1128).\<close>

definition attachInteraction :: "nat \<Rightarrow> id_value \<Rightarrow> binding \<Rightarrow> binding" where
  "attachInteraction el spaceId b =
     (if ghBound (b_doc b ! el) then b
      else if el \<in> set (b_bound b) then b
      else
        \<lparr>b_doc = (b_doc b)[el := (b_doc b ! el)\<lparr>ghBound := True\<rparr>],
         b_listeners = b_listeners b @ [(el, spaceId)],
         b_bound = b_bound b @ [el]\<rparr>)"

text \<open>The first loop (lines 1067-1074), over \<^verbatim>\<open>doc.querySelectorAll('[data-space-id]')\<close>;
  the second component is \<^verbatim>\<open>processedElements\<close>. The value of the attribute is a
  string.\<close>

definition dynamicElements :: "svg_document \<Rightarrow> nat list" where
  "dynamicElements doc = filter (\<lambda>el. dataSpaceId (doc ! el) \<noteq> None) [0..<length doc]"

definition bind_dynamic :: "nat \<Rightarrow> binding \<times> nat list \<Rightarrow> binding \<times> nat list" where
  "bind_dynamic el st =
     (case dataSpaceId (b_doc (fst st) ! el) of
        None \<Rightarrow> st
      | Some spaceId \<Rightarrow>
          if spaceId \<noteq> []
          then (attachInteraction el (StringId spaceId) (fst st), snd st @ [el])
          else st)"

text \<open>
  The lookup of the second loop (lines 1080-1096). \<^verbatim>\<open>doc.getElementById(space.id)\<close>
  converts its argument to a string; the scan of the \<^verbatim>\<open>g\<close> elements compares with
  \<^verbatim>\<open>g.id === space.id\<close>, which no function satisfies.
\<close>

definition find_by_id :: "svg_document \<Rightarrow> id_value \<Rightarrow> nat option" where
  "find_by_id doc i =
     (case getElementById doc (id_text i) of
        Some el \<Rightarrow> Some el
      | None \<Rightarrow> find (\<lambda>g. StringId (elem_id (doc ! g)) = i) (querySelectorAll doc ''g''))"

text \<open>\<^verbatim>\<open>s.endsWith('s')\<close> for a string \<open>s\<close>.\<close>

definition endsWith_s :: "string \<Rightarrow> bool" where
  "endsWith_s i = (i \<noteq> [] \<and> last i = CHR ''s'')"

text \<open>
  When nothing was found, \<^verbatim>\<open>!el && space.id.endsWith('s')\<close> calls the method
  \<^verbatim>\<open>endsWith\<close> of the id (line 1089). A string has it, and \<^verbatim>\<open>space.id.slice(0, -1)\<close>
  is the string without its last character. A function has no property of that name:
  the call of \<^verbatim>\<open>undefined\<close> throws a \<^verbatim>\<open>TypeError\<close>.
\<close>

definition resolve_space :: "svg_document \<Rightarrow> id_value \<Rightarrow> js_error + nat option" where
  "resolve_space doc i =
     (case find_by_id doc i of
        Some el \<Rightarrow> Inr (Some el)
      | None \<Rightarrow>
          (case i of
             StringId s \<Rightarrow>
               Inr (if endsWith_s s then find_by_id doc (StringId (butlast s)) else None)
           | FunctionId f \<Rightarrow> Inl TypeError))"

text \<open>The callback of the second loop (lines 1079-1103): it throws before it binds.\<close>

definition bind_space ::
  "space \<Rightarrow> binding \<times> nat list \<Rightarrow> js_error + binding \<times> nat list" where
  "bind_space sp st =
     (case resolve_space (b_doc (fst st)) (space_id sp) of
        Inl e \<Rightarrow> Inl e
      | Inr None \<Rightarrow> Inr st
      | Inr (Some el) \<Rightarrow>
          if el \<notin> set (snd st)
          then Inr (attachInteraction el (space_id sp) (fst st), snd st @ [el])
          else Inr st)"

text \<open>
  \<^verbatim>\<open>xs.forEach(f)\<close> for a callback that may throw: the state reached, and the error
  if one was thrown. An error ends the loop, so the elements after the one whose
  callback threw are not visited, and what was done before stays done.
\<close>

fun forEach :: "('x \<Rightarrow> 's \<Rightarrow> js_error + 's) \<Rightarrow> 'x list \<Rightarrow> 's \<Rightarrow> 's \<times> js_error option" where
  "forEach f [] s = (s, None)"
| "forEach f (x # xs) s =
     (case f x s of
        Inl e \<Rightarrow> (s, Some e)
      | Inr s' \<Rightarrow> forEach f xs s')"

text \<open>
  \<^verbatim>\<open>attachSvgHandlers(svgObject)\<close> (lines 1040-1104) for the markers object of the
  page, as \<^verbatim>\<open>init\<close> calls it (lines 831-835): the state it leaves, and the error it
  throws to its caller, if any. Hiding the \<^verbatim>\<open>Map\<close> group (an inline style) and the
  document's own click listener are not modelled.
\<close>

definition attachSvgHandlers :: "app \<Rightarrow> app \<times> js_error option" where
  "attachSvgHandlers a =
     (case buildingMarkersSvg (view_page a) of
        None \<Rightarrow> (a, None)
      | Some svgObject \<Rightarrow>
          (case initMarkerVisibility (contentDocument svgObject) of
             None \<Rightarrow> (a, None)
           | Some doc \<Rightarrow>
               let b0 = \<lparr>b_doc = doc, b_listeners = clickListeners a, b_bound = boundElements a\<rparr>;
                   st1 = fold bind_dynamic (dynamicElements doc) (b0, []);
                   r = forEach bind_space (spaces (model a)) st1;
                   b = fst (fst r)
               in (a\<lparr>view_page := (view_page a)\<lparr>buildingMarkersSvg :=
                        Some (svgObject\<lparr>contentDocument := Some (b_doc b)\<rparr>)\<rparr>,
                      clickListeners := b_listeners b,
                      boundElements := b_bound b\<rparr>,
                   snd r)))"

section \<open>JavaScript values (data-adapter.js)\<close>

text \<open>
  The adapter receives whatever \<^verbatim>\<open>response.json()\<close> produced, so its input is any
  JSON value; \<^verbatim>\<open>undefined\<close> is what reading a missing property gives and a function
  is what reading an inherited property can give. An object is the list of its own
  properties. A JSON number is kept as an integer: the adapter only tests numbers for
  truth and against 0. A string is a list of characters; letters outside ASCII are
  left as they are by \<open>toLowerCase\<close> below.
\<close>

datatype js =
    JUndefined
  | JNull
  | JBool bool
  | JNum int
  | JStr string
  | JArr "js list"
  | JObj "(string \<times> js) list"
  | JFun string

text \<open>Sequencing of computations that may throw.\<close>

definition and_then :: "js_error + 'a \<Rightarrow> ('a \<Rightarrow> js_error + 'b) \<Rightarrow> js_error + 'b" where
  "and_then r f = (case r of Inl e \<Rightarrow> Inl e | Inr v \<Rightarrow> f v)"

text \<open>\<^verbatim>\<open>xs.map(f)\<close> for an \<open>f\<close> that may throw.\<close>

fun map_js :: "('a \<Rightarrow> js_error + 'b) \<Rightarrow> 'a list \<Rightarrow> js_error + 'b list" where
  "map_js f [] = Inr []"
| "map_js f (x # xs) = and_then (f x) (\<lambda>y. and_then (map_js f xs) (\<lambda>ys. Inr (y # ys)))"

text \<open>Truthiness, as \<^verbatim>\<open>!x\<close>, \<^verbatim>\<open>x && y\<close> and \<^verbatim>\<open>x || y\<close> read it.\<close>

fun truthy :: "js \<Rightarrow> bool" where
  "truthy JUndefined = False"
| "truthy JNull = False"
| "truthy (JBool b) = b"
| "truthy (JNum n) = (n \<noteq> 0)"
| "truthy (JStr s) = (s \<noteq> [])"
| "truthy (JArr xs) = True"
| "truthy (JObj kvs) = True"
| "truthy (JFun f) = True"

definition or_else :: "js \<Rightarrow> js \<Rightarrow> js" where
  "or_else x y = (if truthy x then x else y)"

text \<open>The properties every object inherits from \<^verbatim>\<open>Object.prototype\<close>
  (\<^verbatim>\<open>__proto__\<close> is the prototype object itself, shown without its properties).\<close>

definition Object_prototype :: "(string \<times> js) list" where
  "Object_prototype =
     [(''constructor'', JFun ''Object''),
      (''hasOwnProperty'', JFun ''hasOwnProperty''),
      (''isPrototypeOf'', JFun ''isPrototypeOf''),
      (''propertyIsEnumerable'', JFun ''propertyIsEnumerable''),
      (''toLocaleString'', JFun ''toLocaleString''),
      (''toString'', JFun ''toString''),
      (''valueOf'', JFun ''valueOf''),
      (''__defineGetter__'', JFun ''__defineGetter__''),
      (''__defineSetter__'', JFun ''__defineSetter__''),
      (''__lookupGetter__'', JFun ''__lookupGetter__''),
      (''__lookupSetter__'', JFun ''__lookupSetter__''),
      (''__proto__'', JObj [])]"

text \<open>
  Reading a property, \<^verbatim>\<open>x.p\<close> or \<^verbatim>\<open>x[p]\<close>: a \<^verbatim>\<open>TypeError\<close> on \<^verbatim>\<open>null\<close> and
  \<^verbatim>\<open>undefined\<close>; on an object its own property, else the inherited one, else
  \<^verbatim>\<open>undefined\<close>. Of the names the adapter reads of an array, a string, a number or a
  boolean, only \<^verbatim>\<open>length\<close> is a property of theirs.
\<close>

fun get :: "js \<Rightarrow> string \<Rightarrow> js_error + js" where
  "get JUndefined p = Inl TypeError"
| "get JNull p = Inl TypeError"
| "get (JObj kvs) p =
     Inr (case map_of kvs p of
            Some v \<Rightarrow> v
          | None \<Rightarrow> (case map_of Object_prototype p of Some v \<Rightarrow> v | None \<Rightarrow> JUndefined))"
| "get (JArr xs) p = Inr (if p = ''length'' then JNum (int (length xs)) else JUndefined)"
| "get (JStr s) p = Inr (if p = ''length'' then JNum (int (length s)) else JUndefined)"
| "get (JBool b) p = Inr JUndefined"
| "get (JNum n) p = Inr JUndefined"
| "get (JFun f) p = Inr JUndefined"

text \<open>\<^verbatim>\<open>x[0]\<close>.\<close>

fun at0 :: "js \<Rightarrow> js_error + js" where
  "at0 JUndefined = Inl TypeError"
| "at0 JNull = Inl TypeError"
| "at0 (JArr xs) = Inr (case xs of [] \<Rightarrow> JUndefined | x # _ \<Rightarrow> x)"
| "at0 (JStr s) = Inr (case s of [] \<Rightarrow> JUndefined | c # _ \<Rightarrow> JStr [c])"
| "at0 (JObj kvs) = get (JObj kvs) ''0''"
| "at0 (JBool b) = Inr JUndefined"
| "at0 (JNum n) = Inr JUndefined"
| "at0 (JFun f) = Inr JUndefined"

text \<open>
  \<^verbatim>\<open>x > 0\<close>. A number is compared; \<^verbatim>\<open>undefined\<close> converts to NaN, \<^verbatim>\<open>null\<close> to 0,
  a boolean to 0 or 1. A string, an array, an object or a function goes through
  \<^verbatim>\<open>ToPrimitive\<close> and \<^verbatim>\<open>ToNumber\<close>, which may throw: that conversion is the parameter
  \<open>coerce\<close> of the adapter's functions. (The operand is always a \<^verbatim>\<open>length\<close>: only an
  object with an own property of that name reaches \<open>coerce\<close>.)
\<close>

fun js_gt0 :: "(js \<Rightarrow> js_error + bool) \<Rightarrow> js \<Rightarrow> js_error + bool" where
  "js_gt0 coerce (JNum n) = Inr (n > 0)"
| "js_gt0 coerce JUndefined = Inr False"
| "js_gt0 coerce JNull = Inr False"
| "js_gt0 coerce (JBool b) = Inr b"
| "js_gt0 coerce v = coerce v"

text \<open>\<^verbatim>\<open>Array.isArray(x)\<close> and the elements of an array.\<close>

fun isArray :: "js \<Rightarrow> bool" where
  "isArray (JArr xs) = True"
| "isArray v = False"

fun elements :: "js \<Rightarrow> js list" where
  "elements (JArr xs) = xs"
| "elements v = []"

text \<open>String conversion, as a template literal does it.\<close>

fun show_nat :: "nat \<Rightarrow> string" where
  "show_nat n =
     (if n < 10 then [''0123456789'' ! n] else show_nat (n div 10) @ [''0123456789'' ! (n mod 10)])"

definition show_int :: "int \<Rightarrow> string" where
  "show_int i = (if i < 0 then CHR ''-'' # show_nat (nat (- i)) else show_nat (nat i))"

fun join :: "string list \<Rightarrow> string" where
  "join [] = []"
| "join [x] = x"
| "join (x # y # zs) = x @ '','' @ join (y # zs)"

fun toString :: "js \<Rightarrow> string" where
  "toString JUndefined = ''undefined''"
| "toString JNull = ''null''"
| "toString (JBool b) = (if b then ''true'' else ''false'')"
| "toString (JNum n) = show_int n"
| "toString (JStr s) = s"
| "toString (JArr xs) =
     join (map (\<lambda>x. if x = JUndefined \<or> x = JNull then [] else toString x) xs)"
| "toString (JObj kvs) = ''[object Object]''"
| "toString (JFun f) = ''function '' @ f @ ''() { [native code] }''"

section \<open>The adapter (data-adapter.js)\<close>

definition heroBg :: string where
  "heroBg = ''./Content/imgs/k-12-hero-bg.png''"

definition mapImage :: string where
  "mapImage = ''./Content/imgs/k-12-map.svg''"

definition markersImage :: string where
  "markersImage = ''./Content/imgs/k-12-markers.svg''"

definition icons_primary :: string where
  "icons_primary = ''./Content/imgs/icons/select-a-space.svg''"

definition icons_secondary :: string where
  "icons_secondary = ''./Content/imgs/icons/share.svg''"

definition SPACE_ID_OVERRIDES :: js where
  "SPACE_ID_OVERRIDES = JObj [(''school-gym'', JStr ''gym'')]"

definition pins_path :: string where
  "pins_path = ''./Content/imgs/Space Pins and Labels with Popover/''"

text \<open>\<^verbatim>\<open>name.toLowerCase()\<close> on ASCII, and the character class \<^verbatim>\<open>[a-z0-9]\<close>.\<close>

definition toLowerCase_char :: "char \<Rightarrow> char" where
  "toLowerCase_char c =
     (case map_of (zip ''ABCDEFGHIJKLMNOPQRSTUVWXYZ'' ''abcdefghijklmnopqrstuvwxyz'') c of
        Some l \<Rightarrow> l
      | None \<Rightarrow> c)"

definition toLowerCase :: "string \<Rightarrow> string" where
  "toLowerCase s = map toLowerCase_char s"

definition is_az09 :: "char \<Rightarrow> bool" where
  "is_az09 c = (c \<in> set ''abcdefghijklmnopqrstuvwxyz0123456789'')"

text \<open>\<^verbatim>\<open>.replace(/[^a-z0-9]+/g, '-')\<close>: every maximal run of other characters becomes
  one hyphen.\<close>

function replace_runs :: "string \<Rightarrow> string" where
  "replace_runs [] = []"
| "replace_runs (c # cs) =
     (if is_az09 c then c # replace_runs cs
      else CHR ''-'' # replace_runs (dropWhile (\<lambda>x. \<not> is_az09 x) cs))"
  by pat_completeness auto
termination
  by (relation "measure length") (auto simp: length_dropWhile_le less_Suc_eq_le)

text \<open>\<^verbatim>\<open>.replace(/^-|-$/g, '')\<close>: a hyphen that is the first character goes, and a
  hyphen that is the last character of what is left goes.\<close>

definition strip_hyphens :: "string \<Rightarrow> string" where
  "strip_hyphens s =
     (let s1 = (case s of [] \<Rightarrow> [] | c # cs \<Rightarrow> if c = CHR ''-'' then cs else s)
      in if s1 \<noteq> [] \<and> last s1 = CHR ''-'' then butlast s1 else s1)"

definition slug_of :: "string \<Rightarrow> string" where
  "slug_of s = strip_hyphens (replace_runs (toLowerCase s))"

text \<open>\<^verbatim>\<open>generateId(name)\<close> (lines 96-100). Only a string has \<^verbatim>\<open>toLowerCase\<close>: calling
  it on another truthy value throws.\<close>

definition generateId :: "js \<Rightarrow> js_error + js" where
  "generateId n =
     (if \<not> truthy n then Inr (JStr ''unknown-space'')
      else
        (case n of
           JStr s \<Rightarrow>
             and_then (get SPACE_ID_OVERRIDES (slug_of s)) (\<lambda>v. Inr (or_else v (JStr (slug_of s))))
         | _ \<Rightarrow> Inl TypeError))"

text \<open>\<^verbatim>\<open>(arr && arr.length > 0) ? arr[0] : {}\<close>, the expression of lines 47, 103
  and 125.\<close>

definition first_or_empty :: "(js \<Rightarrow> js_error + bool) \<Rightarrow> js \<Rightarrow> js_error + js" where
  "first_or_empty coerce arr =
     (if truthy arr then
        and_then (get arr ''length'') (\<lambda>len.
        and_then (js_gt0 coerce len) (\<lambda>b.
        if b then at0 arr else Inr (JObj [])))
      else Inr (JObj []))"

text \<open>\<^verbatim>\<open>extractImageUrl(imageArray)\<close> (lines 133-138).\<close>

definition extractImageUrl :: "(js \<Rightarrow> js_error + bool) \<Rightarrow> js \<Rightarrow> js_error + js" where
  "extractImageUrl coerce imageArray =
     (if truthy imageArray then
        and_then (get imageArray ''length'') (\<lambda>len.
        and_then (js_gt0 coerce len) (\<lambda>b.
        if b then
          and_then (at0 imageArray) (\<lambda>img.
          and_then (get img ''Url'') (\<lambda>url.
          if truthy url then Inr url else Inr JNull))
        else Inr JNull))
      else Inr JNull)"

text \<open>\<^verbatim>\<open>transformActions(actions)\<close> (lines 62-74).\<close>

definition transformAction :: "js \<Rightarrow> js_error + js" where
  "transformAction action =
     and_then (get action ''Type'') (\<lambda>t.
     and_then (get action ''Title'') (\<lambda>label.
     and_then (get action ''Action'') (\<lambda>act.
     let type = (if t = JStr ''1'' then ''primary'' else ''secondary'') in
     Inr (JObj
       [(''type'', JStr type),
        (''label'', label),
        (''iconClass'', JStr (if type = ''primary'' then icons_primary else icons_secondary)),
        (''actionId'', JStr (if act = JStr ''1'' then ''select-space-btn'' else ''share-btn''))]))))"

definition transformActions :: "js \<Rightarrow> js_error + js" where
  "transformActions actions =
     (if \<not> truthy actions \<or> \<not> isArray actions then Inr (JArr [])
      else and_then (map_js transformAction (elements actions)) (\<lambda>ys. Inr (JArr ys)))"

text \<open>\<^verbatim>\<open>transformPageMetadata(root)\<close> (lines 46-60).\<close>

definition transformPageMetadata :: "(js \<Rightarrow> js_error + bool) \<Rightarrow> js \<Rightarrow> js_error + js" where
  "transformPageMetadata coerce root =
     and_then (get root ''HeroSection'') (\<lambda>hs.
     and_then (first_or_empty coerce hs) (\<lambda>hero.
     and_then (get root ''Title'') (\<lambda>t.
     and_then (get hero ''Title'') (\<lambda>ht.
     and_then (get hero ''Description'') (\<lambda>hd.
     and_then (get hero ''ActionButton'') (\<lambda>ab.
     and_then (transformActions ab) (\<lambda>acts.
     Inr (JObj
       [(''title'', or_else t (JStr ''K-12 Education'')),
        (''heroSection'', JObj
           [(''backgroundImage'', JStr heroBg),
            (''title'', or_else ht (JStr [])),
            (''description'', or_else hd (JStr [])),
            (''actions'', acts)]),
        (''modalMapImage'', JStr mapImage),
        (''modalMarkersImage'', JStr markersImage)]))))))))"

text \<open>\<^verbatim>\<open>transformOverview(overviewArray, spaceId)\<close> (lines 102-109).\<close>

definition transformOverview :: "(js \<Rightarrow> js_error + bool) \<Rightarrow> js \<Rightarrow> js \<Rightarrow> js_error + js" where
  "transformOverview coerce overviewArray spaceId =
     and_then (first_or_empty coerce overviewArray) (\<lambda>overview.
     and_then (get overview ''Title'') (\<lambda>t.
     and_then (get overview ''Body'') (\<lambda>b.
     and_then (get overview ''BackgroundImage'') (\<lambda>bi.
     and_then (extractImageUrl coerce bi) (\<lambda>img.
     Inr (JObj
       [(''title'', or_else t (JStr [])),
        (''body'', or_else b (JStr [])),
        (''bgImg'', or_else img (JStr (pins_path @ toString spaceId @ ''-overview.png'')))]))))))"

text \<open>\<^verbatim>\<open>transformEquipment(equipmentArray)\<close> (lines 111-122).\<close>

definition transformEquipmentItem :: "(js \<Rightarrow> js_error + bool) \<Rightarrow> js \<Rightarrow> js_error + js" where
  "transformEquipmentItem coerce item =
     and_then (get item ''Id'') (\<lambda>i.
     and_then (get item ''Title'') (\<lambda>t.
     and_then (get item ''SliderImage'') (\<lambda>si.
     and_then (extractImageUrl coerce si) (\<lambda>slide.
     and_then (get item ''Body'') (\<lambda>b.
     and_then (get item ''ProductUrl'') (\<lambda>url.
     and_then (get item ''BackgroundImage'') (\<lambda>bi.
     and_then (extractImageUrl coerce bi) (\<lambda>bg.
     Inr (JObj
       [(''id'', i),
        (''title'', t),
        (''slideImg'', or_else slide (JStr ''./Content/imgs/prd-1.png'')),
        (''body'', b),
        (''productDetailsUrl'', or_else url (JStr ''#'')),
        (''bgImg'', or_else bg (JStr ''./Content/imgs/RooftopUnits.png''))])))))))))"

definition transformEquipment :: "(js \<Rightarrow> js_error + bool) \<Rightarrow> js \<Rightarrow> js_error + js" where
  "transformEquipment coerce equipmentArray =
     (if \<not> truthy equipmentArray \<or> \<not> isArray equipmentArray then Inr (JArr [])
      else and_then (map_js (transformEquipmentItem coerce) (elements equipmentArray))
             (\<lambda>ys. Inr (JArr ys)))"

text \<open>\<^verbatim>\<open>transformNarrative(narrativeArray, spaceId)\<close> (lines 124-131).\<close>

definition transformNarrative :: "(js \<Rightarrow> js_error + bool) \<Rightarrow> js \<Rightarrow> js \<Rightarrow> js_error + js" where
  "transformNarrative coerce narrativeArray spaceId =
     and_then (first_or_empty coerce narrativeArray) (\<lambda>narrative.
     and_then (get narrative ''Title'') (\<lambda>t.
     and_then (get narrative ''Body'') (\<lambda>b.
     and_then (get narrative ''BackgroundImage'') (\<lambda>bi.
     and_then (extractImageUrl coerce bi) (\<lambda>img.
     Inr (JObj
       [(''title'', or_else t (JStr [])),
        (''body'', or_else b (JStr [])),
        (''img'', or_else img (JStr ''./Content/imgs/k-12-hero-bg.png''))]))))))"

text \<open>\<^verbatim>\<open>transformSpaces(spaces)\<close> (lines 76-94).\<close>

definition transformSpace :: "(js \<Rightarrow> js_error + bool) \<Rightarrow> js \<Rightarrow> js_error + js" where
  "transformSpace coerce sp =
     and_then (get sp ''Title'') (\<lambda>t.
     and_then (get sp ''Name'') (\<lambda>n.
     let spaceName = or_else t n in
     and_then (generateId spaceName) (\<lambda>generatedId.
     and_then (get sp ''Description'') (\<lambda>d.
     and_then (get sp ''Overview'') (\<lambda>ov.
     and_then (transformOverview coerce ov generatedId) (\<lambda>overview.
     and_then (get sp ''SystemEquipment'') (\<lambda>se.
     and_then (transformEquipment coerce se) (\<lambda>equipment.
     and_then (get sp ''DesignNarrative'') (\<lambda>dn.
     and_then (transformNarrative coerce dn generatedId) (\<lambda>narrative.
     Inr (JObj
       [(''id'', generatedId),
        (''name'', spaceName),
        (''systemName'', or_else d n),
        (''markerImg'', JStr (pins_path @ toString generatedId @ ''.svg'')),
        (''overview'', overview),
        (''systemEquipment'', equipment),
        (''designNarrative'', narrative)])))))))))))"

definition transformSpaces :: "(js \<Rightarrow> js_error + bool) \<Rightarrow> js \<Rightarrow> js_error + js" where
  "transformSpaces coerce sps =
     (if \<not> truthy sps \<or> \<not> isArray sps then Inr (JArr [])
      else and_then (map_js (transformSpace coerce) (elements sps)) (\<lambda>ys. Inr (JArr ys)))"

text \<open>\<^verbatim>\<open>transform(apiResponse)\<close> (lines 27-44): the body of the \<^verbatim>\<open>try\<close>, and the
  function with its \<^verbatim>\<open>catch\<close>.\<close>

definition empty_structure :: js where
  "empty_structure = JObj [(''pageMetadata'', JObj []), (''spaces'', JArr [])]"

definition transform_try :: "(js \<Rightarrow> js_error + bool) \<Rightarrow> js \<Rightarrow> js_error + js" where
  "transform_try coerce apiResponse =
     (if \<not> truthy apiResponse then Inl (Error ''Invalid API response format'')
      else
        and_then (get apiResponse ''value'') (\<lambda>v.
        if \<not> truthy v then Inl (Error ''Invalid API response format'')
        else
          and_then (get v ''length'') (\<lambda>len.
          if len = JNum 0 then Inl (Error ''Invalid API response format'')
          else
            and_then (at0 v) (\<lambda>root.
            and_then (transformPageMetadata coerce root) (\<lambda>pm.
            and_then (get root ''Spaces'') (\<lambda>sps.
            and_then (transformSpaces coerce sps) (\<lambda>ss.
            Inr (JObj [(''pageMetadata'', pm), (''spaces'', ss)]))))))))"

definition transform :: "(js \<Rightarrow> js_error + bool) \<Rightarrow> js \<Rightarrow> js" where
  "transform coerce apiResponse =
     (case transform_try coerce apiResponse of
        Inl e \<Rightarrow> empty_structure
      | Inr v \<Rightarrow> v)"

section \<open>The data fetch (SpaceService.fetchData)\<close>

text \<open>
  What the one \<^verbatim>\<open>fetch\<close> of \<^verbatim>\<open>fetchData\<close> (lines 124-151) can come to: the request
  fails, or a response arrives with its \<^verbatim>\<open>ok\<close> flag and a body that
  \<^verbatim>\<open>response.json()\<close> parses (\<open>Some\<close>) or rejects (\<open>None\<close>). \<open>adapter_defined\<close> is
  \<^verbatim>\<open>typeof DataAdapter !== 'undefined'\<close>.
\<close>

datatype fetch_outcome = NetworkFailure | Response bool "js option"

definition fetchData :: "(js \<Rightarrow> js_error + bool) \<Rightarrow> bool \<Rightarrow> fetch_outcome \<Rightarrow> js" where
  "fetchData coerce adapter_defined outcome =
     (case outcome of
        NetworkFailure \<Rightarrow> empty_structure
      | Response ok body \<Rightarrow>
          if \<not> ok then empty_structure
          else
            (case body of
               None \<Rightarrow> empty_structure
             | Some rawData \<Rightarrow>
                 if adapter_defined then transform coerce rawData else rawData))"

section \<open>Example inputs\<close>

text \<open>A markers document: the root, the pins container with the roof and two
  markers, each marker with a pin and a label; a page that holds it; two spaces.\<close>

definition mk_element :: "string \<Rightarrow> string \<Rightarrow> nat option \<Rightarrow> element" where
  "mk_element t i p =
     \<lparr>tagName = t, elem_id = i, parent = p, classList = [], dataSpaceId = None, ghBound = False\<rparr>"

definition example_doc :: svg_document where
  "example_doc =
     [mk_element ''svg'' [] None,
      mk_element ''g'' ''K-12-Pins-Roof-Closed'' (Some 0),
      mk_element ''g'' ''school-roof'' (Some 1),
      mk_element ''g'' ''lobby'' (Some 1),
      mk_element ''g'' [] (Some 3),
      mk_element ''g'' [] (Some 3),
      mk_element ''g'' ''gym'' (Some 1),
      mk_element ''g'' [] (Some 6),
      mk_element ''g'' [] (Some 6)]"

definition page_of :: "svg_document \<Rightarrow> page" where
  "page_of doc =
     \<lparr>overlaySvg = Some \<lparr>object_classList = [], object_data = None, contentDocument = None\<rparr>,
      buildingMarkersSvg =
        Some \<lparr>object_classList = [], object_data = None, contentDocument = Some doc\<rparr>\<rparr>"

definition mk_space :: "string \<Rightarrow> string \<Rightarrow> nat \<Rightarrow> space" where
  "mk_space i img n =
     \<lparr>space_id = StringId i, name = i, systemName = i, markerImg = img,
      systemEquipment = replicate n \<lparr>equipment_id = ''e'', title = ''t''\<rparr>\<rparr>"

definition app_of :: "space list \<Rightarrow> svg_document \<Rightarrow> app" where
  "app_of sps doc =
     \<lparr>model = new_SpaceModel\<lparr>spaces := sps\<rparr>, view_page = page_of doc,
      clickListeners = [], boundElements = []\<rparr>"

definition example_app :: app where
  "example_app = app_of [mk_space ''lobby'' ''lobby.svg'' 3, mk_space ''gym'' ''gym.svg'' 2] example_doc"

definition example_root :: js where
  "example_root =
     JObj [(''Title'', JStr ''K-12''),
           (''Spaces'', JArr [JObj [(''Title'', JStr ''School Gym'')]])]"

definition no_coercion :: "js \<Rightarrow> js_error + bool" where
  "no_coercion v = Inr False"



text \<open>An application on the first document whose second space has the id that
  \<open>generateId\<close> gives the name \<^verbatim>\<open>Constructor\<close>.\<close>

definition constructor_app :: app where
  "constructor_app =
     app_of [mk_space ''lobby'' ''lobby.svg'' 3,
             \<lparr>space_id = FunctionId ''Object'', name = ''Constructor'',
              systemName = ''Constructor'',
              markerImg = pins_path @ id_text (FunctionId ''Object'') @ ''.svg'',
              systemEquipment = []\<rparr>,
             mk_space ''gym'' ''gym.svg'' 2]
       example_doc"

text \<open>Two responses with a malformed space entry: an empty object, and
  \<^verbatim>\<open>null\<close>.\<close>

definition malformed_response :: js where
  "malformed_response = JObj [(''value'', JArr [JObj [(''Spaces'', JArr [JObj []])]])]"

definition null_entry_response :: js where
  "null_entry_response =
     JObj [(''value'', JArr [JObj [(''Spaces'', JArr [JObj [(''Title'', JStr ''School Gym'')], JNull])]])]"

section \<open>The lookup order as the specification states it\<close>


section \<open>Notions used in the proofs\<close>

text \<open>The class set of an element; two documents that differ in class lists only;
  the classes of every element after one marker group was initialised; a marker group
  that is initialised; what one call of \<^verbatim>\<open>updateMarkerVisibility\<close> does to the
  markers document.\<close>

definition cls :: "svg_document \<Rightarrow> nat \<Rightarrow> string set" where
  "cls doc j = set (classList (doc ! j))"

definition same_structure :: "svg_document \<Rightarrow> svg_document \<Rightarrow> bool" where
  "same_structure doc doc' =
     (map (\<lambda>e. e\<lparr>classList := []\<rparr>) doc' = map (\<lambda>e. e\<lparr>classList := []\<rparr>) doc)"

definition init_classes :: "svg_document \<Rightarrow> nat \<Rightarrow> nat \<Rightarrow> string set" where
  "init_classes doc g j =
     (let s1 = (if j = g then insert markerGroup (cls doc j) else cls doc j) in
      case child_groups doc g of
        [] \<Rightarrow> s1
      | k0 # rest \<Rightarrow>
          let s2 = (if j = k0 then insert childVisible s1 - {childHidden} else s1)
          in if j \<in> set rest then insert childHidden s2 - {childVisible} else s2)"

definition group_initialised :: "svg_document \<Rightarrow> nat \<Rightarrow> bool" where
  "group_initialised doc g =
     (markerGroup \<in> cls doc g \<and>
      (case child_groups doc g of
         [] \<Rightarrow> True
       | k0 # rest \<Rightarrow>
           childVisible \<in> cls doc k0 \<and> childHidden \<notin> cls doc k0 \<and>
           (\<forall>k\<in>set rest. childHidden \<in> cls doc k \<and> childVisible \<notin> cls doc k)))"

definition dim_document :: "string option \<Rightarrow> svg_document \<Rightarrow> svg_document" where
  "dim_document activeId doc =
     (case find_container doc of
        None \<Rightarrow> doc
      | Some container \<Rightarrow> fold (dim_group activeId) (child_groups doc container) doc)"

text \<open>For the binding of markers: two documents with the same tags, ids and
  \<^verbatim>\<open>data-space-id\<close> attributes; an element with a non-empty \<^verbatim>\<open>data-space-id\<close>; the
  listeners the first and the second loop of \<open>attachSvgHandlers\<close> add on a fresh
  document, the second loop up to the first space whose lookup throws; the error the
  second loop ends with; an id that is a string; a state of the loops in which an
  element was processed exactly when it has a listener.\<close>

definition same_markup :: "svg_document \<Rightarrow> svg_document \<Rightarrow> bool" where
  "same_markup doc doc' =
     (length doc' = length doc \<and>
      (\<forall>k<length doc. tagName (doc' ! k) = tagName (doc ! k)
         \<and> elem_id (doc' ! k) = elem_id (doc ! k)
         \<and> dataSpaceId (doc' ! k) = dataSpaceId (doc ! k)))"

definition has_tag :: "svg_document \<Rightarrow> nat \<Rightarrow> bool" where
  "has_tag doc el = (case dataSpaceId (doc ! el) of None \<Rightarrow> False | Some v \<Rightarrow> v \<noteq> [])"

definition tagged_bindings :: "svg_document \<Rightarrow> nat list \<Rightarrow> (nat \<times> id_value) list" where
  "tagged_bindings doc els =
     concat (map (\<lambda>el. case dataSpaceId (doc ! el) of
                          None \<Rightarrow> []
                        | Some v \<Rightarrow> if v \<noteq> [] then [(el, StringId v)] else []) els)"

fun space_bindings :: "svg_document \<Rightarrow> nat list \<Rightarrow> space list \<Rightarrow> (nat \<times> id_value) list" where
  "space_bindings doc claimed [] = []"
| "space_bindings doc claimed (sp # sps) =
     (case resolve_space doc (space_id sp) of
        Inl e \<Rightarrow> []
      | Inr None \<Rightarrow> space_bindings doc claimed sps
      | Inr (Some el) \<Rightarrow>
          if el \<notin> set claimed
          then (el, space_id sp) # space_bindings doc (claimed @ [el]) sps
          else space_bindings doc claimed sps)"

fun thrown_by :: "svg_document \<Rightarrow> space list \<Rightarrow> js_error option" where
  "thrown_by doc [] = None"
| "thrown_by doc (sp # sps) =
     (case resolve_space doc (space_id sp) of
        Inl e \<Rightarrow> Some e
      | Inr r \<Rightarrow> thrown_by doc sps)"

fun is_string :: "id_value \<Rightarrow> bool" where
  "is_string (StringId s) = True"
| "is_string (FunctionId f) = False"

definition consistent :: "svg_document \<Rightarrow> binding \<times> nat list \<Rightarrow> bool" where
  "consistent doc st =
     (same_markup doc (b_doc (fst st))
      \<and> snd st = map fst (b_listeners (fst st))
      \<and> b_bound (fst st) = map fst (b_listeners (fst st))
      \<and> (\<forall>k<length doc. ghBound (b_doc (fst st) ! k) = (k \<in> fst ` set (b_listeners (fst st)))))"

section \<open>Clicks on markers: unknown ids, and what a selection leaves alone\<close>

lemma getSpace_None: "StringId i \<notin> space_id ` set (spaces m) \<Longrightarrow> getSpace m i = None"
  by (force simp: getSpace_def find_None_iff)

text \<open>
  C6. A click on a marker whose space id is not in the model's list changes nothing:
  \<open>getSpace\<close> answers \<open>None\<close> (not found, no exception) and \<open>handleMarkerClick\<close>
  returns the application state it was given, that is the same model
  (\<open>currentSpaceId\<close>, \<open>currentTab\<close>, \<open>currentProductIndex\<close>) and the same page
  (overlay, markers layer and marker classes).
\<close>

theorem handleMarkerClick_unknown_id:
  assumes "StringId spaceId \<notin> space_id ` set (spaces (model a))"
  shows "getSpace (model a) spaceId = None \<and> handleMarkerClick spaceId a = a"
  using assms by (simp add: getSpace_None handleMarkerClick_def)

theorem handleMarkerClick_unknown_id_witness:
  "StringId ''pool'' \<notin> space_id ` set (spaces (model example_app))
   \<and> getSpace (model example_app) ''pool'' = None
   \<and> handleMarkerClick ''pool'' example_app = example_app"
proof -
  have h: "StringId ''pool'' \<notin> space_id ` set (spaces (model example_app))"
    by (simp add: example_app_def app_of_def mk_space_def)
  show ?thesis using h handleMarkerClick_unknown_id [OF h] by simp
qed

lemma handleMarkerClick_model:
  "getSpace (model a) i = Some s \<Longrightarrow>
   model (handleMarkerClick i a) = (model a)\<lparr>currentSpaceId := Some i\<rparr>"
  by (simp add: handleMarkerClick_def setCurrentSpace_def)

text \<open>
  C9. For a space id the model knows, \<open>handleMarkerClick\<close> changes the model in the
  field \<open>currentSpaceId\<close> only: \<open>currentTab\<close>, \<open>currentProductIndex\<close> and the space
  list are those of the state before. So the carousel index reached while one space
  was selected is still there after another space is selected.
\<close>

theorem handleMarkerClick_frame:
  assumes "getSpace (model a) i = Some s"
  shows "model (handleMarkerClick i a) = (model a)\<lparr>currentSpaceId := Some i\<rparr>
       \<and> currentTab (model (handleMarkerClick i a)) = currentTab (model a)
       \<and> currentProductIndex (model (handleMarkerClick i a)) = currentProductIndex (model a)
       \<and> spaces (model (handleMarkerClick i a)) = spaces (model a)"
  using assms by (simp add: handleMarkerClick_def setCurrentSpace_def)

lemma lobby_twice_next:
  "model (nextProduct (nextProduct (handleMarkerClick ''lobby'' example_app))) =
     \<lparr>spaces = [mk_space ''lobby'' ''lobby.svg'' 3, mk_space ''gym'' ''gym.svg'' 2],
      currentSpaceId = Some ''lobby'', currentTab = ''overview'', currentProductIndex = 2\<rparr>"
  by (simp add: example_app_def app_of_def handleMarkerClick_def nextProduct_def getSpace_def
      getCurrentSpace_def setCurrentSpace_def mk_space_def new_SpaceModel_def Let_def)

theorem handleMarkerClick_frame_witness:
  "getSpace (model (nextProduct (nextProduct (handleMarkerClick ''lobby'' example_app)))) ''gym''
     = Some (mk_space ''gym'' ''gym.svg'' 2)
   \<and> currentSpaceId (model (handleMarkerClick ''gym''
         (nextProduct (nextProduct (handleMarkerClick ''lobby'' example_app))))) = Some ''gym''
   \<and> currentTab (model (handleMarkerClick ''gym''
         (nextProduct (nextProduct (handleMarkerClick ''lobby'' example_app))))) = ''overview''
   \<and> currentProductIndex (model (handleMarkerClick ''gym''
         (nextProduct (nextProduct (handleMarkerClick ''lobby'' example_app))))) = 2"
proof -
  have h: "getSpace (model (nextProduct (nextProduct (handleMarkerClick ''lobby'' example_app))))
             ''gym'' = Some (mk_space ''gym'' ''gym.svg'' 2)"
    by (simp add: lobby_twice_next getSpace_def mk_space_def)
  show ?thesis
    using h handleMarkerClick_frame [OF h] by (simp add: lobby_twice_next)
qed

section \<open>The carousel\<close>

text \<open>What \<open>nextProduct\<close> and \<open>prevProduct\<close> do to the index of a selected space
  that has equipment, whatever the index was.\<close>

lemma nextProduct_index:
  assumes "getCurrentSpace (model a) = Some s" and "systemEquipment s \<noteq> []"
  shows "currentProductIndex (model (nextProduct a)) =
           (if currentProductIndex (model a) + 1 \<ge> int (length (systemEquipment s)) then 0
            else currentProductIndex (model a) + 1)"
  using assms by (simp add: nextProduct_def Let_def)

lemma prevProduct_index:
  assumes "getCurrentSpace (model a) = Some s" and "systemEquipment s \<noteq> []"
  shows "currentProductIndex (model (prevProduct a)) =
           (if currentProductIndex (model a) - 1 < 0 then int (length (systemEquipment s)) - 1
            else currentProductIndex (model a) - 1)"
  using assms by (simp add: prevProduct_def Let_def)

text \<open>
  From an index in range the two steps do what is expected of them. Let a space with
  \<open>n > 0\<close> items of equipment be selected and the index \<open>i\<close> be in \<open>[0, n)\<close>. Then
  \<open>nextProduct\<close> sets the index to 0 when \<open>i = n - 1\<close> and to \<open>i + 1\<close> otherwise,
  \<open>prevProduct\<close> sets it to \<open>n - 1\<close> when \<open>i = 0\<close> and to \<open>i - 1\<close> otherwise, and both
  leave it in \<open>[0, n)\<close>.
\<close>

lemma carousel_steps:
  assumes "getCurrentSpace (model a) = Some s" and "systemEquipment s \<noteq> []"
      and "0 \<le> currentProductIndex (model a)"
      and "currentProductIndex (model a) < int (length (systemEquipment s))"
  shows "currentProductIndex (model (nextProduct a)) =
           (if currentProductIndex (model a) = int (length (systemEquipment s)) - 1 then 0
            else currentProductIndex (model a) + 1)
       \<and> currentProductIndex (model (prevProduct a)) =
           (if currentProductIndex (model a) = 0 then int (length (systemEquipment s)) - 1
            else currentProductIndex (model a) - 1)
       \<and> 0 \<le> currentProductIndex (model (nextProduct a))
       \<and> currentProductIndex (model (nextProduct a)) < int (length (systemEquipment s))
       \<and> 0 \<le> currentProductIndex (model (prevProduct a))
       \<and> currentProductIndex (model (prevProduct a)) < int (length (systemEquipment s))"
  using assms by (auto simp: nextProduct_index prevProduct_index)

lemma lobby_selected:
  "model (handleMarkerClick ''lobby'' example_app) =
     \<lparr>spaces = [mk_space ''lobby'' ''lobby.svg'' 3, mk_space ''gym'' ''gym.svg'' 2],
      currentSpaceId = Some ''lobby'', currentTab = ''overview'', currentProductIndex = 0\<rparr>"
  by (simp add: example_app_def app_of_def handleMarkerClick_def getSpace_def
      setCurrentSpace_def mk_space_def new_SpaceModel_def)

lemma carousel_steps_lobby:
  "getCurrentSpace (model (handleMarkerClick ''lobby'' example_app))
     = Some (mk_space ''lobby'' ''lobby.svg'' 3)
   \<and> length (systemEquipment (mk_space ''lobby'' ''lobby.svg'' 3)) = 3
   \<and> currentProductIndex (model (handleMarkerClick ''lobby'' example_app)) = 0
   \<and> currentProductIndex (model (nextProduct (handleMarkerClick ''lobby'' example_app))) = 1
   \<and> currentProductIndex (model (prevProduct (handleMarkerClick ''lobby'' example_app))) = 2"
proof -
  have h: "getCurrentSpace (model (handleMarkerClick ''lobby'' example_app))
             = Some (mk_space ''lobby'' ''lobby.svg'' 3)"
    by (simp add: lobby_selected getCurrentSpace_def getSpace_def mk_space_def)
  have n: "systemEquipment (mk_space ''lobby'' ''lobby.svg'' 3) \<noteq> []"
    "length (systemEquipment (mk_space ''lobby'' ''lobby.svg'' 3)) = 3"
    by (simp_all add: mk_space_def)
  have i: "0 \<le> currentProductIndex (model (handleMarkerClick ''lobby'' example_app))"
    "currentProductIndex (model (handleMarkerClick ''lobby'' example_app))
       < int (length (systemEquipment (mk_space ''lobby'' ''lobby.svg'' 3)))"
    by (simp_all add: lobby_selected n)
  show ?thesis
    using carousel_steps [OF h n(1) i] h n(2) by (simp add: lobby_selected)
qed

text \<open>
  A click on a carousel dot is meant to set the index to the dot's own; the listener
  reads \<^verbatim>\<open>this.model\<close> of the view, which has no such property, and throws before it
  assigns: for every requested index and every state the outcome is the
  \<^verbatim>\<open>TypeError\<close> and no new state.
\<close>

lemma dot_click_throws: "dot_click idx a = Inl TypeError"
  by (simp add: dot_click_def SpaceView_properties_def)

text \<open>
  C5. The index of the carousel is to lie in \<open>[0, n)\<close> for the selected space with its
  \<open>n > 0\<close> items, and a direct go-to-index action is to set the index to the requested
  value. The code keeps neither. The lobby (three items) is selected and
  \<open>nextProduct\<close> is called twice; then the gym (two items) is selected: the selected
  space is the gym and the index is still 2, outside \<open>[0, 2)\<close>, because no selection
  resets it. And the click on the dot with the index 1, the go-to-index action, ends
  in a \<^verbatim>\<open>TypeError\<close> and sets no index.
\<close>

theorem carousel_index_defects:
  "getCurrentSpace (model (handleMarkerClick ''gym''
      (nextProduct (nextProduct (handleMarkerClick ''lobby'' example_app)))))
     = Some (mk_space ''gym'' ''gym.svg'' 2)
   \<and> length (systemEquipment (mk_space ''gym'' ''gym.svg'' 2)) = 2
   \<and> currentProductIndex (model (handleMarkerClick ''gym''
      (nextProduct (nextProduct (handleMarkerClick ''lobby'' example_app))))) = 2
   \<and> dot_click 1 (handleMarkerClick ''lobby'' example_app) = Inl TypeError"
proof -
  have "getSpace (model (nextProduct (nextProduct (handleMarkerClick ''lobby'' example_app))))
          ''gym'' = Some (mk_space ''gym'' ''gym.svg'' 2)"
    by (simp add: lobby_twice_next getSpace_def mk_space_def)
  then show ?thesis
    by (simp add: handleMarkerClick_model lobby_twice_next getCurrentSpace_def getSpace_def
        dot_click_throws)
      (simp add: mk_space_def)
qed

section \<open>Identifiers of spaces\<close>

lemma generateId_examples:
  "generateId (JStr ''Science Lab'') = Inr (JStr ''science-lab'')"
  "generateId (JStr ''School Gym'') = Inr (JStr ''gym'')"
  "generateId (JStr []) = Inr (JStr ''unknown-space'')"
  "generateId JUndefined = Inr (JStr ''unknown-space'')"
  by (simp_all add: generateId_def slug_of_def toLowerCase_def toLowerCase_char_def is_az09_def
      strip_hyphens_def SPACE_ID_OVERRIDES_def Object_prototype_def and_then_def or_else_def)

text \<open>Where the code follows the slug rule: for a non-empty name whose slug is not
  the name of an inherited property, the id is the slug, or its override. A name
  without letters and digits has the empty slug, and the empty id.\<close>

lemma generateId_rule:
  assumes "s \<noteq> []" and "slug_of s \<notin> fst ` set Object_prototype"
  shows "generateId (JStr s) =
           Inr (JStr (if slug_of s = ''school-gym'' then ''gym'' else slug_of s))"
proof -
  have "map_of Object_prototype (slug_of s) = None"
    using assms(2) by (simp add: map_of_eq_None_iff)
  then show ?thesis
    using assms(1)
    by (simp add: generateId_def SPACE_ID_OVERRIDES_def or_else_def and_then_def)
qed

lemma generateId_empty_slug: "generateId (JStr ''!!!'') = Inr (JStr [])"
  by (simp add: generateId_def slug_of_def toLowerCase_def toLowerCase_char_def is_az09_def
      strip_hyphens_def SPACE_ID_OVERRIDES_def Object_prototype_def and_then_def or_else_def)

lemma replace_runs_chars: "c \<in> set (replace_runs s) \<Longrightarrow> is_az09 c \<or> c = CHR ''-''"
proof (induction s rule: replace_runs.induct)
  case 1
  then show ?case by simp
next
  case (2 d ds)
  then show ?case by (auto split: if_splits)
qed

text \<open>
  What \<open>generateId\<close> can return: a slug has lower-case letters, digits and hyphens
  only, and \<^verbatim>\<open>constructor\<close> is the one inherited property with such a name. So the id
  of a space is a string or the function \<^verbatim>\<open>Object\<close>, the two forms of \<open>id_value\<close>.
\<close>

lemma strip_hyphens_subset: "set (strip_hyphens s) \<subseteq> set s"
  by (cases s) (auto simp: strip_hyphens_def Let_def dest: in_set_butlastD split: if_splits)

lemma slug_of_chars: "c \<in> set (slug_of s) \<Longrightarrow> is_az09 c \<or> c = CHR ''-''"
  using strip_hyphens_subset [of "replace_runs (toLowerCase s)"] replace_runs_chars
  by (auto simp: slug_of_def)

lemma inherited_slug:
  assumes "map_of Object_prototype (slug_of s) = Some v"
  shows "v = JFun ''Object''"
proof -
  have k: "slug_of s \<in> fst ` set Object_prototype"
    using assms by (auto dest: map_of_SomeD intro: rev_image_eqI)
  have u: "CHR ''O'' \<notin> set (slug_of s)" "CHR ''P'' \<notin> set (slug_of s)"
    "CHR ''E'' \<notin> set (slug_of s)" "CHR ''S'' \<notin> set (slug_of s)"
    "CHR ''L'' \<notin> set (slug_of s)" "CHR ''_'' \<notin> set (slug_of s)"
    using slug_of_chars [of _ s] by (auto simp: is_az09_def)
  from k u have "slug_of s = ''constructor''"
    by (auto simp: Object_prototype_def)
  with assms show ?thesis by (simp add: Object_prototype_def)
qed

lemma generateId_range:
  assumes "generateId n = Inr v"
  shows "(\<exists>s. v = JStr s) \<or> v = JFun ''Object''"
proof (cases "truthy n")
  case False
  then show ?thesis using assms by (auto simp: generateId_def)
next
  case True
  then obtain s where n: "n = JStr s"
    using assms by (cases n) (simp_all add: generateId_def)
  show ?thesis
  proof (cases "map_of Object_prototype (slug_of s)")
    case None
    then show ?thesis
      using assms True n
      by (auto simp: generateId_def SPACE_ID_OVERRIDES_def or_else_def and_then_def split: if_splits)
  next
    case (Some w)
    then have "w = JFun ''Object''" by (rule inherited_slug)
    then show ?thesis
      using assms True n Some
      by (auto simp: generateId_def SPACE_ID_OVERRIDES_def or_else_def and_then_def split: if_splits)
  qed
qed

text \<open>
  C7. The slug of the name \<^verbatim>\<open>Constructor\<close> is \<^verbatim>\<open>constructor\<close>; the override table is
  a plain object, which inherits a property of that name, so the lookup answers the
  function \<^verbatim>\<open>Object\<close> and \<open>generateId\<close> returns it instead of the slug.
\<close>

theorem generateId_constructor:
  "slug_of ''Constructor'' = ''constructor''
   \<and> generateId (JStr ''Constructor'') = Inr (JFun ''Object'')"
  by (simp add: generateId_def slug_of_def toLowerCase_def toLowerCase_char_def is_az09_def
      strip_hyphens_def SPACE_ID_OVERRIDES_def Object_prototype_def and_then_def or_else_def)

section \<open>The adapter's entry point\<close>

text \<open>
  C10. When the \<^verbatim>\<open>value\<close> array of the response has two or more elements, the
  transformation gives what it gives for a response whose \<^verbatim>\<open>value\<close> holds the first
  element alone: the later elements are never read.
\<close>

theorem transform_reads_first_element_only:
  assumes "map_of kvs ''value'' = Some (JArr (x # y # ys))"
  shows "transform coerce (JObj kvs) = transform coerce (JObj [(''value'', JArr [x])])"
  using assms by (simp add: transform_def transform_try_def and_then_def)

theorem transform_reads_first_element_only_witness:
  "map_of [(''count'', JNum 2), (''value'', JArr [example_root, JNull, JStr ''x''])] ''value''
     = Some (JArr (example_root # JNull # [JStr ''x'']))
   \<and> transform no_coercion
        (JObj [(''count'', JNum 2), (''value'', JArr [example_root, JNull, JStr ''x''])])
     = transform no_coercion (JObj [(''value'', JArr [example_root])])"
proof -
  have h: "map_of [(''count'', JNum 2), (''value'', JArr [example_root, JNull, JStr ''x''])]
             ''value'' = Some (JArr (example_root # JNull # [JStr ''x'']))"
    by simp
  show ?thesis
    using h transform_reads_first_element_only [OF h, of no_coercion] by simp
qed

section \<open>Marker visibility\<close>

text \<open>
  Adding and removing classes leaves tags, ids and parents as they are, so the
  container, the marker groups and their child groups are the same before and after
  every step of the two loops. What a step does to the classes is stated on the class
  set of each element.
\<close>

subsection \<open>Documents that differ in classes only\<close>

lemma same_structure_refl [simp]: "same_structure doc doc"
  by (simp add: same_structure_def)

lemma same_structure_trans:
  "same_structure a b \<Longrightarrow> same_structure b c \<Longrightarrow> same_structure a c"
  by (simp add: same_structure_def)

lemma same_structure_length: "same_structure doc doc' \<Longrightarrow> length doc' = length doc"
  unfolding same_structure_def by (metis length_map)

lemma same_structure_nth:
  assumes "same_structure doc doc'" and "k < length doc"
  shows "tagName (doc' ! k) = tagName (doc ! k)"
    and "elem_id (doc' ! k) = elem_id (doc ! k)"
    and "parent (doc' ! k) = parent (doc ! k)"
proof -
  have len: "k < length doc'" using assms by (simp add: same_structure_length)
  have "map (\<lambda>e. e\<lparr>classList := []\<rparr>) doc' ! k = map (\<lambda>e. e\<lparr>classList := []\<rparr>) doc ! k"
    using assms(1) by (simp add: same_structure_def)
  then have eq: "(doc' ! k)\<lparr>classList := []\<rparr> = (doc ! k)\<lparr>classList := []\<rparr>"
    using assms(2) len by simp
  show "tagName (doc' ! k) = tagName (doc ! k)"
    using arg_cong [OF eq, of tagName] by simp
  show "elem_id (doc' ! k) = elem_id (doc ! k)"
    using arg_cong [OF eq, of elem_id] by simp
  show "parent (doc' ! k) = parent (doc ! k)"
    using arg_cong [OF eq, of parent] by simp
qed

lemma same_structure_children_of:
  assumes "same_structure doc doc'"
  shows "children_of doc' p = children_of doc p"
proof -
  have "filter (\<lambda>el. parent (doc' ! el) = Some p) [0..<length doc]
        = filter (\<lambda>el. parent (doc ! el) = Some p) [0..<length doc]"
    by (rule filter_cong) (simp_all add: same_structure_nth [OF assms])
  then show ?thesis
    by (simp add: children_of_def same_structure_length [OF assms])
qed

lemma children_of_bound: "k \<in> set (children_of doc p) \<Longrightarrow> k < length doc"
  by (simp add: children_of_def)

lemma child_groups_bound: "k \<in> set (child_groups doc p) \<Longrightarrow> k < length doc"
  by (simp add: child_groups_def children_of_def)

lemma same_structure_child_groups:
  assumes "same_structure doc doc'"
  shows "child_groups doc' p = child_groups doc p"
proof -
  have "filter (\<lambda>el. tagName (doc' ! el) = ''g'') (children_of doc p)
        = filter (\<lambda>el. tagName (doc ! el) = ''g'') (children_of doc p)"
    by (rule filter_cong) (simp_all add: same_structure_nth [OF assms] children_of_bound)
  then show ?thesis
    by (simp add: child_groups_def same_structure_children_of [OF assms])
qed

lemma same_structure_find_container:
  assumes "same_structure doc doc'"
  shows "find_container doc' = find_container doc"
proof -
  have a: "find (\<lambda>el. elem_id (doc' ! el) = i) [0..<length doc']
         = find (\<lambda>el. elem_id (doc ! el) = i) [0..<length doc]" for i
    by (rule find_cong) (simp_all add: same_structure_length [OF assms] same_structure_nth [OF assms])
  have b: "find (\<lambda>el. tagName (doc' ! el) = t) [0..<length doc']
         = find (\<lambda>el. tagName (doc ! el) = t) [0..<length doc]" for t
    by (rule find_cong) (simp_all add: same_structure_length [OF assms] same_structure_nth [OF assms])
  show ?thesis
    unfolding find_container_def getElementById_def querySelector_def a b ..
qed

lemma same_structure_update:
  assumes "\<And>e. (f e)\<lparr>classList := []\<rparr> = e\<lparr>classList := []\<rparr>"
  shows "same_structure doc (doc[el := f (doc ! el)])"
proof (cases "el < length doc")
  case True
  then show ?thesis
    by (simp add: same_structure_def map_update assms list_update_same_conv)
next
  case False
  then show ?thesis by (simp add: list_update_beyond)
qed

lemma same_structure_classList_add [simp]: "same_structure doc (classList_add el c doc)"
  unfolding classList_add_def by (rule same_structure_update) simp

lemma same_structure_classList_remove [simp]: "same_structure doc (classList_remove el c doc)"
  unfolding classList_remove_def by (rule same_structure_update) simp

lemma cls_classList_add:
  "el < length doc \<Longrightarrow>
   cls (classList_add el c doc) j = (if j = el then insert c (cls doc j) else cls doc j)"
  by (auto simp: cls_def classList_add_def tokens_add_def)

lemma cls_classList_remove:
  "el < length doc \<Longrightarrow>
   cls (classList_remove el c doc) j = (if j = el then cls doc j - {c} else cls doc j)"
  by (auto simp: cls_def classList_remove_def tokens_remove_def)

lemma length_classList_add [simp]: "length (classList_add el c doc) = length doc"
  by (simp add: classList_add_def)

lemma length_classList_remove [simp]: "length (classList_remove el c doc) = length doc"
  by (simp add: classList_remove_def)

subsection \<open>One marker group initialised\<close>

lemma class_names_distinct [simp]:
  "childVisible \<noteq> childHidden" "childHidden \<noteq> childVisible"
  "markerGroup \<noteq> childHidden" "markerGroup \<noteq> childVisible"
  "childHidden \<noteq> markerGroup" "childVisible \<noteq> markerGroup"
  by (simp_all add: childVisible_def childHidden_def markerGroup_def)

lemma same_structure_show_child [simp]: "same_structure doc (show_child k doc)"
  unfolding show_child_def
  by (rule same_structure_trans [OF same_structure_classList_add same_structure_classList_remove])

lemma same_structure_hide_child [simp]: "same_structure doc (hide_child k doc)"
  unfolding hide_child_def
  by (rule same_structure_trans [OF same_structure_classList_add same_structure_classList_remove])

lemma length_show_child [simp]: "length (show_child k doc) = length doc"
  by (simp add: show_child_def)

lemma length_hide_child [simp]: "length (hide_child k doc) = length doc"
  by (simp add: hide_child_def)

lemma cls_show_child:
  "k < length doc \<Longrightarrow>
   cls (show_child k doc) j =
     (if j = k then insert childVisible (cls doc j) - {childHidden} else cls doc j)"
  by (simp add: show_child_def cls_classList_add cls_classList_remove)

lemma cls_hide_child:
  "k < length doc \<Longrightarrow>
   cls (hide_child k doc) j =
     (if j = k then insert childHidden (cls doc j) - {childVisible} else cls doc j)"
  by (simp add: hide_child_def cls_classList_add cls_classList_remove)

lemma same_structure_fold_hide [simp]: "same_structure doc (fold hide_child ks doc)"
proof (induction ks arbitrary: doc)
  case Nil
  show ?case by simp
next
  case (Cons k ks)
  show ?case
    using same_structure_trans [OF same_structure_hide_child Cons.IH] by simp
qed

lemma cls_fold_hide:
  "\<forall>k\<in>set ks. k < length doc \<Longrightarrow>
   cls (fold hide_child ks doc) j =
     (if j \<in> set ks then insert childHidden (cls doc j) - {childVisible} else cls doc j)"
proof (induction ks arbitrary: doc)
  case Nil
  show ?case by simp
next
  case (Cons k ks)
  have "\<forall>x\<in>set ks. x < length (hide_child k doc)"
    using Cons.prems by simp
  from Cons.IH [OF this] Cons.prems show ?case
    by (auto simp: cls_hide_child)
qed

lemma same_structure_init_group [simp]: "same_structure doc (init_group g doc)"
proof -
  let ?d1 = "classList_add g markerGroup doc"
  have a: "same_structure doc ?d1" by simp
  have "same_structure doc (fold hide_child rest (show_child k0 ?d1))" for k0 rest
    by (rule same_structure_trans [OF a same_structure_trans [OF same_structure_show_child same_structure_fold_hide]])
  then show ?thesis
    by (simp add: init_group_def Let_def split: list.splits)
qed

lemma cls_init_group:
  assumes "g < length doc" and "elem_id (doc ! g) \<noteq> buildingRoof"
  shows "cls (init_group g doc) j = init_classes doc g j"
proof -
  let ?d1 = "classList_add g markerGroup doc"
  have cg: "child_groups ?d1 g = child_groups doc g"
    by (simp add: same_structure_child_groups)
  show ?thesis
  proof (cases "child_groups doc g")
    case Nil
    then show ?thesis
      using assms by (simp add: init_group_def Let_def cg init_classes_def cls_classList_add)
  next
    case (Cons k0 rest)
    then have b: "k0 < length doc" "\<forall>k\<in>set rest. k < length doc"
      using child_groups_bound [of _ doc g] by simp_all
    have b': "\<forall>k\<in>set rest. k < length (show_child k0 ?d1)"
      using b by simp
    show ?thesis
      using assms b Cons
      by (simp add: init_group_def Let_def cg init_classes_def cls_fold_hide [OF b']
          cls_show_child cls_classList_add)
  qed
qed

subsection \<open>All marker groups initialised, and again\<close>

lemma distinct_child_groups [simp]: "distinct (child_groups doc p)"
  by (simp add: child_groups_def children_of_def)

lemma child_groups_parent: "k \<in> set (child_groups doc p) \<Longrightarrow> parent (doc ! k) = Some p"
  by (simp add: child_groups_def children_of_def)

lemma child_groups_disjoint:
  "k \<in> set (child_groups doc p) \<Longrightarrow> p \<noteq> q \<Longrightarrow> k \<notin> set (child_groups doc q)"
  by (auto simp: child_groups_def children_of_def)

lemma length_init_group [simp]: "length (init_group g doc) = length doc"
  using same_structure_length [OF same_structure_init_group] .

lemma child_groups_init_group [simp]: "child_groups (init_group g doc) p = child_groups doc p"
  by (simp add: same_structure_child_groups)

lemma init_group_establishes:
  assumes "g < length doc" and "elem_id (doc ! g) \<noteq> buildingRoof"
  shows "group_initialised (init_group g doc) g"
proof (cases "child_groups doc g")
  case Nil
  then show ?thesis
    using assms by (simp add: group_initialised_def cls_init_group init_classes_def)
next
  case (Cons k0 rest)
  then have "k0 \<notin> set rest"
    using distinct_child_groups [of doc g] by simp
  then show ?thesis
    using assms Cons
    by (auto simp: group_initialised_def cls_init_group init_classes_def Let_def)
qed

lemma init_group_preserves:
  assumes "group_initialised doc g" and "g' \<noteq> g" and "g' < length doc"
  shows "group_initialised (init_group g' doc) g"
proof (cases "elem_id (doc ! g') = buildingRoof")
  case True
  then show ?thesis using assms by (simp add: init_group_def)
next
  case False
  have marker: "markerGroup \<in> init_classes doc g' g"
    using assms(1) by (auto simp: group_initialised_def init_classes_def Let_def split: list.splits)
  have other: "init_classes doc g' k \<inter> {childVisible, childHidden}
             = cls doc k \<inter> {childVisible, childHidden}"
    if "k \<in> set (child_groups doc g)" for k
  proof -
    have "k \<notin> set (child_groups doc g')"
      using child_groups_disjoint [OF that, of g'] assms(2) by auto
    then show ?thesis
      by (auto simp: init_classes_def Let_def split: list.splits)
  qed
  have mem: "(c \<in> init_classes doc g' k) = (c \<in> cls doc k)"
    if "k \<in> set (child_groups doc g)" and "c = childVisible \<or> c = childHidden" for k c
    using other [OF that(1)] that(2) by blast
  show ?thesis
    using assms(1) marker
    by (auto simp: group_initialised_def cls_init_group [OF assms(3) False] mem split: list.splits)
qed

lemma fold_init_group_preserves:
  assumes "group_initialised doc g" and "g \<notin> set gs" and "\<forall>x\<in>set gs. x < length doc"
  shows "group_initialised (fold init_group gs doc) g"
  using assms
proof (induction gs arbitrary: doc)
  case Nil
  then show ?case by simp
next
  case (Cons a gs)
  have "group_initialised (init_group a doc) g"
    using Cons.prems by (intro init_group_preserves) auto
  then show ?case
    using Cons.prems by (simp add: Cons.IH)
qed

lemma same_structure_fold_init_group [simp]: "same_structure doc (fold init_group gs doc)"
proof (induction gs arbitrary: doc)
  case Nil
  show ?case by simp
next
  case (Cons a gs)
  show ?case
    using same_structure_trans [OF same_structure_init_group Cons.IH] by simp
qed

lemma fold_init_group_establishes:
  assumes "distinct gs" and "\<forall>x\<in>set gs. x < length doc" and "g \<in> set gs"
      and "elem_id (doc ! g) \<noteq> buildingRoof"
  shows "group_initialised (fold init_group gs doc) g"
  using assms
proof (induction gs arbitrary: doc)
  case Nil
  then show ?case by simp
next
  case (Cons a gs)
  show ?case
  proof (cases "g = a")
    case True
    have "group_initialised (init_group a doc) g"
      using Cons.prems True by (simp add: init_group_establishes)
    then have "group_initialised (fold init_group gs (init_group a doc)) g"
      using Cons.prems True by (intro fold_init_group_preserves) auto
    then show ?thesis by simp
  next
    case False
    have "g < length doc"
      using Cons.prems by auto
    then have "elem_id (init_group a doc ! g) \<noteq> buildingRoof"
      using Cons.prems by (simp add: same_structure_nth [OF same_structure_init_group])
    then have "group_initialised (fold init_group gs (init_group a doc)) g"
      using Cons.prems False by (intro Cons.IH) auto
    then show ?thesis by simp
  qed
qed

lemma classList_add_id: "c \<in> cls doc el \<Longrightarrow> classList_add el c doc = doc"
  by (simp add: cls_def classList_add_def tokens_add_def)

lemma classList_remove_id: "c \<notin> cls doc el \<Longrightarrow> classList_remove el c doc = doc"
  by (simp add: cls_def classList_remove_def tokens_remove_def)

lemma fold_fixed: "\<forall>x\<in>set xs. f x s = s \<Longrightarrow> fold f xs s = s"
  by (induction xs) simp_all

lemma init_group_fixed:
  assumes "group_initialised doc g"
  shows "init_group g doc = doc"
proof -
  have a: "classList_add g markerGroup doc = doc"
    using assms by (simp add: group_initialised_def classList_add_id)
  show ?thesis
  proof (cases "child_groups doc g")
    case Nil
    then show ?thesis by (simp add: init_group_def a)
  next
    case (Cons k0 rest)
    have s: "show_child k0 doc = doc"
      using assms Cons
      by (simp add: group_initialised_def show_child_def classList_add_id classList_remove_id)
    have "\<forall>k\<in>set rest. hide_child k doc = doc"
      using assms Cons
      by (simp add: group_initialised_def hide_child_def classList_add_id classList_remove_id)
    then have "fold hide_child rest doc = doc"
      by (rule fold_fixed)
    then show ?thesis
      by (simp add: init_group_def a Cons s)
  qed
qed

lemma initMarkerVisibility_idem:
  "initMarkerVisibility (initMarkerVisibility d) = initMarkerVisibility d"
proof (cases d)
  case None
  then show ?thesis by (simp add: initMarkerVisibility_def)
next
  case (Some doc)
  show ?thesis
  proof (cases "find_container doc")
    case None
    then show ?thesis using Some by (simp add: initMarkerVisibility_def)
  next
    case (Some c)
    let ?gs = "child_groups doc c"
    let ?d = "fold init_group ?gs doc"
    have st: "same_structure doc ?d" by simp
    have "init_group g ?d = ?d" if "g \<in> set ?gs" for g
    proof (cases "elem_id (doc ! g) = buildingRoof")
      case True
      then have "elem_id (?d ! g) = buildingRoof"
        using that by (simp add: same_structure_nth [OF st] child_groups_bound)
      then show ?thesis by (simp add: init_group_def)
    next
      case False
      have "group_initialised ?d g"
        using that False by (intro fold_init_group_establishes) (auto simp: child_groups_bound)
      then show ?thesis by (rule init_group_fixed)
    qed
    then have "fold init_group ?gs ?d = ?d"
      by (intro fold_fixed) simp
    then show ?thesis
      using Some \<open>d = Some doc\<close>
      by (simp add: initMarkerVisibility_def same_structure_find_container [OF st]
          same_structure_child_groups [OF st])
  qed
qed

lemma initMarkerVisibility_funpow:
  "0 < n \<Longrightarrow> (initMarkerVisibility ^^ n) d = initMarkerVisibility d"
proof (induction n)
  case 0
  then show ?case by simp
next
  case (Suc n)
  show ?case
  proof (cases "n = 0")
    case True
    then show ?thesis by simp
  next
    case False
    then show ?thesis using Suc.IH by (simp add: initMarkerVisibility_idem)
  qed
qed

lemma example_marker_groups: "marker_groups example_doc = [3, 6]"
  by code_simp

lemma example_child_groups: "child_groups example_doc 3 = [4, 5]"
  by code_simp

text \<open>
  C2. Let \<open>g\<close> be a marker group of the document (a \<^verbatim>\<open>g\<close> child of the container
  other than the roof). After \<open>n > 0\<close> runs of \<open>initMarkerVisibility\<close> the group
  carries the marker class, its first child group carries the visible class and not
  the hidden one, and every later child group carries the hidden class and not the
  visible one. The document after \<open>n\<close> runs is the document after one run, and one
  more run leaves it as it is.
\<close>

theorem initMarkerVisibility_invariant:
  assumes "g \<in> set (marker_groups doc)" and "0 < n"
  shows "\<exists>doc'. (initMarkerVisibility ^^ n) (Some doc) = Some doc'
       \<and> marker_groups doc' = marker_groups doc
       \<and> child_groups doc' g = child_groups doc g
       \<and> classList_contains g markerGroup doc'
       \<and> (\<forall>first rest. child_groups doc g = first # rest \<longrightarrow>
             classList_contains first childVisible doc'
           \<and> \<not> classList_contains first childHidden doc'
           \<and> (\<forall>k\<in>set rest. classList_contains k childHidden doc'
                            \<and> \<not> classList_contains k childVisible doc'))
       \<and> initMarkerVisibility (Some doc') = Some doc'
       \<and> initMarkerVisibility (Some doc) = Some doc'"
proof -
  obtain c where c: "find_container doc = Some c"
    using assms(1) by (cases "find_container doc") (simp_all add: marker_groups_def)
  have g: "g \<in> set (child_groups doc c)" and roof: "elem_id (doc ! g) \<noteq> buildingRoof"
    using assms(1) by (simp_all add: marker_groups_def c)
  let ?d = "fold init_group (child_groups doc c) doc"
  have run: "initMarkerVisibility (Some doc) = Some ?d"
    by (simp add: initMarkerVisibility_def c)
  have st: "same_structure doc ?d" by simp
  have mg: "marker_groups ?d = marker_groups doc"
  proof -
    have "filter (\<lambda>g. elem_id (?d ! g) \<noteq> buildingRoof) (child_groups doc c)
        = filter (\<lambda>g. elem_id (doc ! g) \<noteq> buildingRoof) (child_groups doc c)"
      by (rule filter_cong) (simp_all add: same_structure_nth [OF st] child_groups_bound)
    then show ?thesis
      by (simp add: marker_groups_def same_structure_find_container [OF st]
          same_structure_child_groups [OF st] c)
  qed
  have gi: "group_initialised ?d g"
    using g roof by (intro fold_init_group_establishes) (auto simp: child_groups_bound)
  have idem: "initMarkerVisibility (Some ?d) = Some ?d"
    using initMarkerVisibility_idem [of "Some doc"] by (simp add: run)
  have "(initMarkerVisibility ^^ n) (Some doc) = Some ?d"
    using assms(2) by (simp add: initMarkerVisibility_funpow run)
  moreover have "classList_contains g markerGroup ?d"
    using gi by (simp add: group_initialised_def classList_contains_def cls_def)
  moreover have "\<forall>first rest. child_groups doc g = first # rest \<longrightarrow>
             classList_contains first childVisible ?d
           \<and> \<not> classList_contains first childHidden ?d
           \<and> (\<forall>k\<in>set rest. classList_contains k childHidden ?d
                            \<and> \<not> classList_contains k childVisible ?d)"
    using gi by (auto simp: group_initialised_def classList_contains_def cls_def
        same_structure_child_groups [OF st])
  ultimately show ?thesis
    using mg idem run same_structure_child_groups [OF st] by blast
qed

theorem initMarkerVisibility_invariant_witness:
  "3 \<in> set (marker_groups example_doc) \<and> child_groups example_doc 3 = [4, 5]
   \<and> (\<exists>doc'. (initMarkerVisibility ^^ 2) (Some example_doc) = Some doc'
         \<and> initMarkerVisibility (Some example_doc) = Some doc'
         \<and> classList_contains 3 markerGroup doc'
         \<and> classList_contains 4 childVisible doc' \<and> \<not> classList_contains 4 childHidden doc'
         \<and> classList_contains 5 childHidden doc' \<and> \<not> classList_contains 5 childVisible doc')"
proof -
  have h: "3 \<in> set (marker_groups example_doc)"
    by (simp add: example_marker_groups)
  have two: "(0::nat) < 2" by simp
  from initMarkerVisibility_invariant [OF h two] example_child_groups h
  show ?thesis by auto
qed

subsection \<open>Dimming the other markers\<close>

lemma same_structure_dim_group [simp]: "same_structure doc (dim_group a g doc)"
  by (simp add: dim_group_def)

lemma length_dim_group [simp]: "length (dim_group a g doc) = length doc"
  using same_structure_length [OF same_structure_dim_group] .

lemma same_structure_fold_dim_group [simp]: "same_structure doc (fold (dim_group a) gs doc)"
proof (induction gs arbitrary: doc)
  case Nil
  show ?case by simp
next
  case (Cons g gs)
  show ?case
    using same_structure_trans [OF same_structure_dim_group Cons.IH] by simp
qed

lemma same_structure_dim_document [simp]: "same_structure doc (dim_document a doc)"
  by (simp add: dim_document_def split: option.splits)

lemma dimmed_dim_group:
  assumes "g < length doc"
  shows "(markerDimmed \<in> cls (dim_group a g doc) j) =
           (if j = g \<and> elem_id (doc ! g) \<noteq> buildingRoof
            then truthy_id a \<and> Some (elem_id (doc ! g)) \<noteq> a
            else markerDimmed \<in> cls doc j)"
  using assms
  by (auto simp: dim_group_def classList_contains_def cls_classList_add cls_classList_remove
      cls_def [symmetric])

lemma dimmed_fold_dim_group:
  assumes "\<forall>x\<in>set gs. x < length doc"
  shows "(markerDimmed \<in> cls (fold (dim_group a) gs doc) j) =
           (if j \<in> set gs \<and> elem_id (doc ! j) \<noteq> buildingRoof
            then truthy_id a \<and> Some (elem_id (doc ! j)) \<noteq> a
            else markerDimmed \<in> cls doc j)"
  using assms
proof (induction gs arbitrary: doc)
  case Nil
  show ?case by simp
next
  case (Cons g gs)
  let ?d = "dim_group a g doc"
  have g: "g < length doc" using Cons.prems by simp
  have b: "\<forall>x\<in>set gs. x < length ?d" using Cons.prems by simp
  have ids: "elem_id (?d ! k) = elem_id (doc ! k)" if "k \<in> set gs" for k
    using that Cons.prems by (simp add: same_structure_nth [OF same_structure_dim_group])
  show ?case
    using Cons.IH [OF b] ids by (auto simp: dimmed_dim_group [OF g])
qed

lemma dim_group_fixed:
  assumes "elem_id (doc ! g) \<noteq> buildingRoof \<Longrightarrow>
           (markerDimmed \<in> cls doc g) = (truthy_id a \<and> Some (elem_id (doc ! g)) \<noteq> a)"
  shows "dim_group a g doc = doc"
  using assms by (auto simp: dim_group_def classList_contains_def cls_def)

lemma dim_document_idem: "dim_document a (dim_document a doc) = dim_document a doc"
proof (cases "find_container doc")
  case None
  then show ?thesis by (simp add: dim_document_def)
next
  case (Some c)
  let ?gs = "child_groups doc c"
  let ?d = "fold (dim_group a) ?gs doc"
  have st: "same_structure doc ?d" by simp
  have b: "\<forall>x\<in>set ?gs. x < length doc" by (simp add: child_groups_bound)
  have "dim_group a g ?d = ?d" if "g \<in> set ?gs" for g
  proof (rule dim_group_fixed)
    have "elem_id (?d ! g) = elem_id (doc ! g)"
      using that by (simp add: same_structure_nth [OF st] child_groups_bound)
    moreover assume "elem_id (?d ! g) \<noteq> buildingRoof"
    ultimately show "(markerDimmed \<in> cls ?d g) = (truthy_id a \<and> Some (elem_id (?d ! g)) \<noteq> a)"
      using that by (simp add: dimmed_fold_dim_group [OF b])
  qed
  then have "fold (dim_group a) ?gs ?d = ?d"
    by (intro fold_fixed) simp
  then show ?thesis
    by (simp add: dim_document_def Some same_structure_find_container [OF st]
        same_structure_child_groups [OF st])
qed

lemma same_structure_marker_groups:
  assumes "same_structure doc doc'"
  shows "marker_groups doc' = marker_groups doc"
proof (cases "find_container doc")
  case None
  then show ?thesis
    by (simp add: marker_groups_def same_structure_find_container [OF assms])
next
  case (Some c)
  have "filter (\<lambda>g. elem_id (doc' ! g) \<noteq> buildingRoof) (child_groups doc c)
      = filter (\<lambda>g. elem_id (doc ! g) \<noteq> buildingRoof) (child_groups doc c)"
    by (rule filter_cong) (simp_all add: same_structure_nth [OF assms] child_groups_bound)
  then show ?thesis
    by (simp add: marker_groups_def same_structure_find_container [OF assms]
        same_structure_child_groups [OF assms] Some)
qed

lemma marker_groups_bound: "g \<in> set (marker_groups doc) \<Longrightarrow> g < length doc"
  by (auto simp: marker_groups_def child_groups_bound split: option.splits)

lemma dimmed_dim_document:
  assumes "g \<in> set (marker_groups doc)"
  shows "is_dimmed (dim_document a doc) g = (truthy_id a \<and> Some (elem_id (doc ! g)) \<noteq> a)"
proof -
  obtain c where c: "find_container doc = Some c"
    using assms by (cases "find_container doc") (simp_all add: marker_groups_def)
  have g: "g \<in> set (child_groups doc c)" and roof: "elem_id (doc ! g) \<noteq> buildingRoof"
    using assms by (simp_all add: marker_groups_def c)
  have b: "\<forall>x\<in>set (child_groups doc c). x < length doc" by (simp add: child_groups_bound)
  show ?thesis
    using g roof
    by (simp add: is_dimmed_def classList_contains_def cls_def [symmetric] dim_document_def c
        dimmed_fold_dim_group [OF b])
qed

lemma markersDocument_updateMarkerVisibility:
  "markersDocument (updateMarkerVisibility a pg) = map_option (dim_document a) (markersDocument pg)"
  by (simp add: markersDocument_def updateMarkerVisibility_def dim_document_def
      split: option.splits)

lemma markersDocument_fold_updateMarkerVisibility:
  "markersDocument (fold updateMarkerVisibility as pg)
     = map_option (fold dim_document as) (markersDocument pg)"
proof (induction as arbitrary: pg)
  case Nil
  show ?case by (simp add: option.map_ident)
next
  case (Cons a as)
  show ?case
    by (simp add: Cons.IH markersDocument_updateMarkerVisibility option.map_comp comp_def)
qed

lemma same_structure_fold_dim_document [simp]: "same_structure doc (fold dim_document as doc)"
proof (induction as arbitrary: doc)
  case Nil
  show ?case by simp
next
  case (Cons a as)
  show ?case
    using same_structure_trans [OF same_structure_dim_document Cons.IH] by simp
qed

lemma updateMarkerVisibility_idem:
  "updateMarkerVisibility a (updateMarkerVisibility a pg) = updateMarkerVisibility a pg"
proof (cases "buildingMarkersSvg pg")
  case None
  then show ?thesis by (simp add: updateMarkerVisibility_def)
next
  case (Some svgObj)
  show ?thesis
  proof (cases "contentDocument svgObj")
    case None
    then show ?thesis using Some by (simp add: updateMarkerVisibility_def)
  next
    case doc: (Some doc)
    show ?thesis
    proof (cases "find_container doc")
      case None
      then show ?thesis using Some doc by (simp add: updateMarkerVisibility_def)
    next
      case c: (Some c)
      let ?d = "fold (dim_group a) (child_groups doc c) doc"
      have d: "dim_document a doc = ?d" by (simp add: dim_document_def c)
      have st: "same_structure doc ?d" by simp
      have "dim_document a ?d = ?d"
        using dim_document_idem [of a doc] by (simp add: d)
      then have "fold (dim_group a) (child_groups doc c) ?d = ?d"
        by (simp add: dim_document_def same_structure_find_container [OF st]
            same_structure_child_groups [OF st] c)
      then show ?thesis
        using Some doc c
        by (simp add: updateMarkerVisibility_def same_structure_find_container [OF st]
            same_structure_child_groups [OF st])
    qed
  qed
qed

text \<open>
  C1 (as amended). Let \<open>g\<close> be a marker group of the markers document. After any
  sequence of calls of \<open>updateMarkerVisibility\<close> and then the call with \<open>activeId\<close>,
  \<open>g\<close> is dimmed exactly when \<open>activeId\<close> is truthy (neither \<^verbatim>\<open>null\<close> nor the empty
  string) and differs from the id of \<open>g\<close>: the outcome depends on the group's id and
  on \<open>activeId\<close> only, not on the classes before. So after the calls with \<open>A\<close> and
  then a non-empty \<open>B \<noteq> A\<close> the group \<open>A\<close> is dimmed, \<open>B\<close> is not and every other
  marker group is; after a last call with \<^verbatim>\<open>null\<close> no marker group is dimmed.
  Calling twice with the same \<open>activeId\<close> gives the page of calling once.
\<close>

theorem updateMarkerVisibility_dims_other_groups:
  assumes "markersDocument pg = Some doc" and "g \<in> set (marker_groups doc)"
  shows "(\<exists>doc'. markersDocument (updateMarkerVisibility activeId
                     (fold updateMarkerVisibility earlier pg)) = Some doc'
            \<and> marker_groups doc' = marker_groups doc
            \<and> elem_id (doc' ! g) = elem_id (doc ! g)
            \<and> is_dimmed doc' g = (truthy_id activeId \<and> Some (elem_id (doc ! g)) \<noteq> activeId))
       \<and> updateMarkerVisibility activeId (updateMarkerVisibility activeId pg)
           = updateMarkerVisibility activeId pg"
proof -
  let ?e = "fold dim_document earlier doc"
  let ?d = "dim_document activeId ?e"
  have st0: "same_structure doc ?e" by simp
  have st: "same_structure doc ?d"
    by (rule same_structure_trans [OF st0 same_structure_dim_document])
  have g0: "g \<in> set (marker_groups ?e)"
    using assms(2) by (simp add: same_structure_marker_groups [OF st0])
  have gl: "g < length doc" using assms(2) by (rule marker_groups_bound)
  have "markersDocument (updateMarkerVisibility activeId
          (fold updateMarkerVisibility earlier pg)) = Some ?d"
    by (simp add: markersDocument_updateMarkerVisibility
        markersDocument_fold_updateMarkerVisibility assms(1))
  moreover have "marker_groups ?d = marker_groups doc"
    by (rule same_structure_marker_groups [OF st])
  moreover have "elem_id (?d ! g) = elem_id (doc ! g)"
    using gl by (simp add: same_structure_nth [OF st])
  moreover have "is_dimmed ?d g = (truthy_id activeId \<and> Some (elem_id (doc ! g)) \<noteq> activeId)"
    using gl by (simp add: dimmed_dim_document [OF g0] same_structure_nth [OF st0])
  ultimately show ?thesis
    using updateMarkerVisibility_idem by blast
qed

lemma example_markersDocument: "markersDocument (page_of example_doc) = Some example_doc"
  by (simp add: markersDocument_def page_of_def)

theorem updateMarkerVisibility_dims_other_groups_witness:
  "markersDocument (page_of example_doc) = Some example_doc
   \<and> 3 \<in> set (marker_groups example_doc) \<and> 6 \<in> set (marker_groups example_doc)
   \<and> elem_id (example_doc ! 3) = ''lobby'' \<and> elem_id (example_doc ! 6) = ''gym''
   \<and> (\<exists>doc'. markersDocument (updateMarkerVisibility (Some ''gym'')
                  (fold updateMarkerVisibility [None, Some ''lobby''] (page_of example_doc)))
                = Some doc'
          \<and> is_dimmed doc' 3 \<and> \<not> is_dimmed doc' 6)
   \<and> (\<exists>doc'. markersDocument (updateMarkerVisibility None
                  (fold updateMarkerVisibility [Some ''gym'', Some ''lobby''] (page_of example_doc)))
                = Some doc'
          \<and> \<not> is_dimmed doc' 3 \<and> \<not> is_dimmed doc' 6)"
proof -
  have g3: "3 \<in> set (marker_groups example_doc)" and g6: "6 \<in> set (marker_groups example_doc)"
    by (simp_all add: example_marker_groups)
  have ids: "elem_id (example_doc ! 3) = ''lobby''" "elem_id (example_doc ! 6) = ''gym''"
    by (simp_all add: example_doc_def mk_element_def)
  note t = updateMarkerVisibility_dims_other_groups [OF example_markersDocument]
  show ?thesis
    using t [OF g3, of "Some ''gym''" "[None, Some ''lobby'']"]
      t [OF g6, of "Some ''gym''" "[None, Some ''lobby'']"]
      t [OF g3, of None "[Some ''gym'', Some ''lobby'']"]
      t [OF g6, of None "[Some ''gym'', Some ''lobby'']"]
      g3 g6 ids example_markersDocument
    by (auto simp: truthy_id_def)
qed

text \<open>
  The claim as stated fails for the empty string, which is an id different from
  \<^verbatim>\<open>lobby\<close>: after the calls with \<^verbatim>\<open>lobby\<close> and then with the empty string, the
  group \<^verbatim>\<open>lobby\<close> is not dimmed (no group is).
\<close>

theorem updateMarkerVisibility_empty_id_counterexample:
  "3 \<in> set (marker_groups example_doc)
   \<and> elem_id (example_doc ! 3) = ''lobby''
   \<and> ''lobby'' \<noteq> ''''
   \<and> markersDocument (updateMarkerVisibility (Some '''')
        (updateMarkerVisibility (Some ''lobby'') (page_of example_doc))) = Some example_doc
   \<and> \<not> is_dimmed example_doc 3"
  by code_simp

section \<open>Selecting a space by its marker\<close>

lemma markersDocument_replaceLandingSvg [simp]:
  "markersDocument (replaceLandingSvg img pg) = markersDocument pg"
  by (simp add: markersDocument_def replaceLandingSvg_def Let_def split: option.splits)

lemma overlaySvg_updateMarkerVisibility [simp]:
  "overlaySvg (updateMarkerVisibility a pg) = overlaySvg pg"
  by (simp add: updateMarkerVisibility_def split: option.splits)

lemma markers_layer_updateMarkerVisibility:
  "buildingMarkersSvg pg = Some layer \<Longrightarrow>
   \<exists>layer'. buildingMarkersSvg (updateMarkerVisibility a pg) = Some layer'
      \<and> object_classList layer' = object_classList layer
      \<and> contentDocument layer' = map_option (dim_document a) (contentDocument layer)"
  by (simp add: updateMarkerVisibility_def dim_document_def split: option.splits)

text \<open>
  C3 (as amended). Let the model know the space id, \<open>sp\<close> being the space
  \<open>getSpace\<close> finds for it, and let the page have the overlay object and the markers
  object. After \<open>handleMarkerClick\<close> the model's \<open>currentSpaceId\<close> is the clicked id,
  the overlay object carries \<^verbatim>\<open>is-visible\<close> and its \<^verbatim>\<open>data\<close> is the marker image of
  \<open>sp\<close>, the markers layer carries \<^verbatim>\<open>is-hidden\<close>, and the page is the one
  \<open>updateMarkerVisibility\<close> makes for that id: a marker group of the loaded markers
  document is dimmed exactly when the clicked id is not empty and the group's id is
  not the clicked one.
\<close>

theorem handleMarkerClick_selects:
  assumes "getSpace (model a) spaceId = Some sp"
      and "overlaySvg (view_page a) = Some overlay"
      and "buildingMarkersSvg (view_page a) = Some layer"
  shows "currentSpaceId (model (handleMarkerClick spaceId a)) = Some spaceId
       \<and> (\<exists>overlay'. overlaySvg (view_page (handleMarkerClick spaceId a)) = Some overlay'
             \<and> ''is-visible'' \<in> set (object_classList overlay')
             \<and> object_data overlay' = Some (markerImg sp))
       \<and> (\<exists>layer'. buildingMarkersSvg (view_page (handleMarkerClick spaceId a)) = Some layer'
             \<and> ''is-hidden'' \<in> set (object_classList layer')
             \<and> (\<forall>doc g. contentDocument layer = Some doc \<longrightarrow> g \<in> set (marker_groups doc)
                   \<longrightarrow>
                   (\<exists>doc'. contentDocument layer' = Some doc'
                       \<and> is_dimmed doc' g = (spaceId \<noteq> [] \<and> elem_id (doc ! g) \<noteq> spaceId))))
       \<and> view_page (handleMarkerClick spaceId a) =
           updateMarkerVisibility (Some spaceId) (replaceLandingSvg (markerImg sp) (view_page a))"
proof -
  let ?pg1 = "replaceLandingSvg (markerImg sp) (view_page a)"
  let ?layer1 = "layer\<lparr>object_classList := tokens_add ''is-hidden'' (object_classList layer)\<rparr>"
  have page: "view_page (handleMarkerClick spaceId a) = updateMarkerVisibility (Some spaceId) ?pg1"
    and cur: "currentSpaceId (model (handleMarkerClick spaceId a)) = Some spaceId"
    using assms(1) by (simp_all add: handleMarkerClick_def setCurrentSpace_def)
  have ov: "overlaySvg ?pg1 = Some (overlay\<lparr>
              object_classList := tokens_add ''is-visible'' (object_classList overlay),
              object_data := Some (markerImg sp)\<rparr>)"
    using assms(2) by (simp add: replaceLandingSvg_def Let_def split: option.splits)
  have l1: "buildingMarkersSvg ?pg1 = Some ?layer1"
    using assms(2,3) by (simp add: replaceLandingSvg_def Let_def)
  from markers_layer_updateMarkerVisibility [OF l1, of "Some spaceId"]
  obtain layer' where l': "buildingMarkersSvg (updateMarkerVisibility (Some spaceId) ?pg1) = Some layer'"
    and cl: "object_classList layer' = tokens_add ''is-hidden'' (object_classList layer)"
    and cd: "contentDocument layer' = map_option (dim_document (Some spaceId)) (contentDocument layer)"
    by auto
  have hidden: "''is-hidden'' \<in> set (object_classList layer')"
    by (simp add: cl tokens_add_def)
  have dim: "\<exists>doc'. contentDocument layer' = Some doc'
                \<and> is_dimmed doc' g = (spaceId \<noteq> [] \<and> elem_id (doc ! g) \<noteq> spaceId)"
    if "contentDocument layer = Some doc" and "g \<in> set (marker_groups doc)"
    for doc g
    using that by (simp add: cd dimmed_dim_document truthy_id_def)
  have "\<exists>overlay'. overlaySvg (view_page (handleMarkerClick spaceId a)) = Some overlay'
             \<and> ''is-visible'' \<in> set (object_classList overlay')
             \<and> object_data overlay' = Some (markerImg sp)"
    by (simp add: page ov tokens_add_def)
  then show ?thesis
    using cur page l' hidden dim by simp
qed


lemma example_app_parts:
  "getSpace (model example_app) ''gym'' = Some (mk_space ''gym'' ''gym.svg'' 2)"
  "overlaySvg (view_page example_app)
     = Some \<lparr>object_classList = [], object_data = None, contentDocument = None\<rparr>"
  "buildingMarkersSvg (view_page example_app)
     = Some \<lparr>object_classList = [], object_data = None, contentDocument = Some example_doc\<rparr>"
  by (simp_all add: example_app_def app_of_def page_of_def getSpace_def new_SpaceModel_def
      mk_space_def)

theorem handleMarkerClick_selects_witness:
  "getSpace (model example_app) ''gym'' = Some (mk_space ''gym'' ''gym.svg'' 2)
   \<and> currentSpaceId (model (handleMarkerClick ''gym'' example_app)) = Some ''gym''
   \<and> (\<exists>overlay'. overlaySvg (view_page (handleMarkerClick ''gym'' example_app)) = Some overlay'
         \<and> ''is-visible'' \<in> set (object_classList overlay')
         \<and> object_data overlay' = Some ''gym.svg'')
   \<and> (\<exists>layer' doc'. buildingMarkersSvg (view_page (handleMarkerClick ''gym'' example_app))
           = Some layer'
         \<and> ''is-hidden'' \<in> set (object_classList layer')
         \<and> contentDocument layer' = Some doc'
         \<and> is_dimmed doc' 3 \<and> \<not> is_dimmed doc' 6)"
proof -
  have g3: "3 \<in> set (marker_groups example_doc)" and g6: "6 \<in> set (marker_groups example_doc)"
    by (simp_all add: example_marker_groups)
  have ids: "elem_id (example_doc ! 3) = ''lobby''" "elem_id (example_doc ! 6) = ''gym''"
    by (simp_all add: example_doc_def mk_element_def)
  have img: "markerImg (mk_space ''gym'' ''gym.svg'' 2) = ''gym.svg''"
    by (simp add: mk_space_def)
  from handleMarkerClick_selects [OF example_app_parts]
  obtain overlay' layer' where
    cur: "currentSpaceId (model (handleMarkerClick ''gym'' example_app)) = Some ''gym''"
    and ov: "overlaySvg (view_page (handleMarkerClick ''gym'' example_app)) = Some overlay'"
      "''is-visible'' \<in> set (object_classList overlay')"
      "object_data overlay' = Some (markerImg (mk_space ''gym'' ''gym.svg'' 2))"
    and la: "buildingMarkersSvg (view_page (handleMarkerClick ''gym'' example_app)) = Some layer'"
      "''is-hidden'' \<in> set (object_classList layer')"
    and dim: "\<And>g. g \<in> set (marker_groups example_doc) \<Longrightarrow>
               \<exists>doc'. contentDocument layer' = Some doc'
                 \<and> is_dimmed doc' g = (elem_id (example_doc ! g) \<noteq> ''gym'')"
    by auto
  from dim [OF g3] dim [OF g6] obtain doc' where
    "contentDocument layer' = Some doc'" "is_dimmed doc' 3" "\<not> is_dimmed doc' 6"
    by (auto simp: ids)
  then show ?thesis
    using cur ov la example_app_parts(1) by (simp add: img)
qed

text \<open>
  The claim as stated fails for a space whose id is the empty string (the id
  \<open>generateId\<close> gives a name without letters and digits): after the click no other
  marker group is dimmed.
\<close>

theorem handleMarkerClick_empty_id_counterexample:
  "getSpace (model (app_of [mk_space [] ''blank.svg'' 0] example_doc)) []
     = Some (mk_space [] ''blank.svg'' 0)
   \<and> 3 \<in> set (marker_groups example_doc)
   \<and> elem_id (example_doc ! 3) = ''lobby''
   \<and> markersDocument (view_page (handleMarkerClick []
         (app_of [mk_space [] ''blank.svg'' 0] example_doc))) = Some example_doc
   \<and> \<not> is_dimmed example_doc 3"
  by code_simp

section \<open>Binding markers to spaces\<close>

text \<open>
  Marking an element as bound changes neither tags, ids nor \<^verbatim>\<open>data-space-id\<close>
  attributes, so every lookup of the two loops gives what it gives on the document as
  loaded. On a fresh document each loop adds the listeners of a list that is computed
  without state; the properties of the binding are read off these lists.
\<close>

lemma same_markup_refl [simp]: "same_markup doc doc"
  by (simp add: same_markup_def)

lemma same_structure_nth_more:
  assumes "same_structure doc doc'" and "k < length doc"
  shows "dataSpaceId (doc' ! k) = dataSpaceId (doc ! k)"
    and "ghBound (doc' ! k) = ghBound (doc ! k)"
proof -
  have len: "k < length doc'" using assms by (simp add: same_structure_length)
  have "map (\<lambda>e. e\<lparr>classList := []\<rparr>) doc' ! k = map (\<lambda>e. e\<lparr>classList := []\<rparr>) doc ! k"
    using assms(1) by (simp add: same_structure_def)
  then have eq: "(doc' ! k)\<lparr>classList := []\<rparr> = (doc ! k)\<lparr>classList := []\<rparr>"
    using assms(2) len by simp
  show "dataSpaceId (doc' ! k) = dataSpaceId (doc ! k)"
    using arg_cong [OF eq, of dataSpaceId] by simp
  show "ghBound (doc' ! k) = ghBound (doc ! k)"
    using arg_cong [OF eq, of ghBound] by simp
qed

lemma same_structure_same_markup: "same_structure doc doc' \<Longrightarrow> same_markup doc doc'"
  by (simp add: same_markup_def same_structure_length same_structure_nth same_structure_nth_more)

lemma same_markup_find_by_id:
  assumes "same_markup doc doc'"
  shows "find_by_id doc' i = find_by_id doc i"
proof -
  have len: "length doc' = length doc" using assms by (simp add: same_markup_def)
  have a: "find (\<lambda>el. elem_id (doc' ! el) = id_text i) [0..<length doc]
         = find (\<lambda>el. elem_id (doc ! el) = id_text i) [0..<length doc]"
    by (rule find_cong) (use assms in \<open>simp_all add: same_markup_def\<close>)
  have b: "filter (\<lambda>el. tagName (doc' ! el) = ''g'') [0..<length doc]
         = filter (\<lambda>el. tagName (doc ! el) = ''g'') [0..<length doc]"
    by (rule filter_cong) (use assms in \<open>simp_all add: same_markup_def\<close>)
  have c: "find (\<lambda>g. StringId (elem_id (doc' ! g)) = i)
             (filter (\<lambda>el. tagName (doc ! el) = ''g'') [0..<length doc])
         = find (\<lambda>g. StringId (elem_id (doc ! g)) = i)
             (filter (\<lambda>el. tagName (doc ! el) = ''g'') [0..<length doc])"
    by (rule find_cong) (use assms in \<open>simp_all add: same_markup_def\<close>)
  show ?thesis
    unfolding find_by_id_def getElementById_def querySelectorAll_def len a b c ..
qed

lemma same_markup_resolve_space:
  "same_markup doc doc' \<Longrightarrow> resolve_space doc' i = resolve_space doc i"
  by (simp add: resolve_space_def same_markup_find_by_id split: option.splits id_value.splits)

lemma find_bound: "find P [0..<n] = Some k \<Longrightarrow> k < n"
  by (auto simp: find_Some_iff)

lemma find_by_id_bound: "find_by_id doc i = Some el \<Longrightarrow> el < length doc"
  by (auto simp: find_by_id_def getElementById_def querySelectorAll_def find_Some_iff
      split: option.splits if_splits dest: nth_mem)

lemma resolve_space_bound: "resolve_space doc i = Inr (Some el) \<Longrightarrow> el < length doc"
  by (auto simp: resolve_space_def find_by_id_bound split: option.splits if_splits id_value.splits)

lemma resolve_space_string: "\<exists>r. resolve_space doc (StringId s) = Inr r"
  by (simp add: resolve_space_def split: option.splits)

lemma resolve_space_is_string: "is_string i \<Longrightarrow> \<exists>r. resolve_space doc i = Inr r"
  by (cases i) (simp_all add: resolve_space_string)

lemma resolve_space_function:
  "getElementById doc (id_text (FunctionId f)) = None \<Longrightarrow>
   resolve_space doc (FunctionId f) = Inl TypeError"
proof -
  assume "getElementById doc (id_text (FunctionId f)) = None"
  moreover have "find (\<lambda>g. StringId (elem_id (doc ! g)) = FunctionId f) xs = None" for xs
    by (simp add: find_None_iff)
  ultimately have "find_by_id doc (FunctionId f) = None"
    by (simp only: find_by_id_def option.case)
  then show ?thesis
    by (simp add: resolve_space_def)
qed

lemma attachInteraction_fresh:
  assumes "consistent doc (b, pr)" and "el < length doc" and "el \<notin> set pr"
  shows "consistent doc (attachInteraction el v b, pr @ [el])"
    and "b_listeners (attachInteraction el v b) = b_listeners b @ [(el, v)]"
proof -
  have len: "length (b_doc b) = length doc"
    and nb: "\<not> ghBound (b_doc b ! el)" and nbd: "el \<notin> set (b_bound b)"
    and pr: "pr = map fst (b_listeners b)"
    using assms by (auto simp: consistent_def same_markup_def)
  have step: "attachInteraction el v b =
      \<lparr>b_doc = (b_doc b)[el := (b_doc b ! el)\<lparr>ghBound := True\<rparr>],
       b_listeners = b_listeners b @ [(el, v)], b_bound = b_bound b @ [el]\<rparr>"
    using nb nbd by (simp add: attachInteraction_def)
  show "b_listeners (attachInteraction el v b) = b_listeners b @ [(el, v)]"
    by (simp add: step)
  have upd: "(b_doc b)[el := (b_doc b ! el)\<lparr>ghBound := True\<rparr>] ! k
             = (if k = el then (b_doc b ! el)\<lparr>ghBound := True\<rparr> else b_doc b ! k)" for k
    using assms(2) len by (simp add: nth_list_update)
  have "same_markup doc ((b_doc b)[el := (b_doc b ! el)\<lparr>ghBound := True\<rparr>])"
    using assms(1) by (simp add: consistent_def same_markup_def upd)
  moreover have "\<forall>k<length doc.
      ghBound ((b_doc b)[el := (b_doc b ! el)\<lparr>ghBound := True\<rparr>] ! k)
        = (k \<in> fst ` set (b_listeners b @ [(el, v)]))"
    using assms(1) by (auto simp: consistent_def upd)
  ultimately show "consistent doc (attachInteraction el v b, pr @ [el])"
    using assms(1) by (simp add: consistent_def step)
qed

lemma consistent_dataSpaceId:
  "consistent doc (b, pr) \<Longrightarrow> el < length doc \<Longrightarrow>
   dataSpaceId (b_doc b ! el) = dataSpaceId (doc ! el)"
  by (simp add: consistent_def same_markup_def)

lemma fold_bind_dynamic:
  assumes "consistent doc (b, pr)" and "distinct els" and "\<forall>el\<in>set els. el < length doc"
      and "set els \<inter> set pr = {}"
  shows "consistent doc (fold bind_dynamic els (b, pr))
       \<and> b_listeners (fst (fold bind_dynamic els (b, pr)))
           = b_listeners b @ tagged_bindings doc els"
  using assms
proof (induction els arbitrary: b pr)
  case Nil
  then show ?case by (simp add: tagged_bindings_def)
next
  case (Cons el els)
  have el: "el < length doc" "el \<notin> set pr" using Cons.prems by auto
  have tag: "dataSpaceId (b_doc b ! el) = dataSpaceId (doc ! el)"
    using Cons.prems(1) el(1) by (rule consistent_dataSpaceId)
  show ?case
  proof (cases "\<exists>v. dataSpaceId (doc ! el) = Some v \<and> v \<noteq> []")
    case True
    then obtain v where v: "dataSpaceId (doc ! el) = Some v" "v \<noteq> []" by auto
    have step: "bind_dynamic el (b, pr) = (attachInteraction el (StringId v) b, pr @ [el])"
      by (simp add: bind_dynamic_def tag v)
    note a = attachInteraction_fresh [OF Cons.prems(1) el, of "StringId v"]
    have "set els \<inter> set (pr @ [el]) = {}" using Cons.prems by auto
    from Cons.IH [OF a(1) _ _ this] Cons.prems(2,3)
    show ?thesis
      by (simp add: step a(2) tagged_bindings_def v)
  next
    case False
    then have step: "bind_dynamic el (b, pr) = (b, pr)"
      by (auto simp: bind_dynamic_def tag split: option.splits)
    have "set els \<inter> set pr = {}" using Cons.prems by auto
    from Cons.IH [OF Cons.prems(1) _ _ this] Cons.prems(2,3) False
    show ?thesis
      by (auto simp: step tagged_bindings_def split: option.splits)
  qed
qed

text \<open>The second loop: what it binds, and what it throws.\<close>

lemma forEach_bind_space:
  assumes "consistent doc (b, pr)"
  shows "consistent doc (fst (forEach bind_space sps (b, pr)))
       \<and> b_listeners (fst (fst (forEach bind_space sps (b, pr))))
           = b_listeners b @ space_bindings doc pr sps
       \<and> snd (forEach bind_space sps (b, pr)) = thrown_by doc sps"
  using assms
proof (induction sps arbitrary: b pr)
  case Nil
  then show ?case by simp
next
  case (Cons sp sps)
  have res: "resolve_space (b_doc b) (space_id sp) = resolve_space doc (space_id sp)"
    using Cons.prems by (simp add: consistent_def same_markup_resolve_space)
  show ?case
  proof (cases "resolve_space doc (space_id sp)")
    case (Inl e)
    then have "bind_space sp (b, pr) = Inl e"
      by (simp add: bind_space_def res)
    then show ?thesis
      using Cons.prems Inl by simp
  next
    case (Inr r)
    show ?thesis
    proof (cases r)
      case None
      then have "bind_space sp (b, pr) = Inr (b, pr)"
        by (simp add: bind_space_def res Inr)
      then show ?thesis
        using Cons.IH [OF Cons.prems] Inr None by simp
    next
      case (Some el)
      show ?thesis
      proof (cases "el \<in> set pr")
        case True
        then have "bind_space sp (b, pr) = Inr (b, pr)"
          by (simp add: bind_space_def res Inr Some)
        then show ?thesis
          using Cons.IH [OF Cons.prems] Inr Some True by simp
      next
        case False
        have el: "el < length doc" using Inr Some by (simp add: resolve_space_bound)
        have step: "bind_space sp (b, pr)
                      = Inr (attachInteraction el (space_id sp) b, pr @ [el])"
          using False by (simp add: bind_space_def res Inr Some)
        note a = attachInteraction_fresh [OF Cons.prems el False, of "space_id sp"]
        from Cons.IH [OF a(1)] show ?thesis
          using Inr Some False by (simp add: step a(2))
      qed
    qed
  qed
qed


lemma initMarkerVisibility_same_structure:
  "\<exists>doc1. initMarkerVisibility (Some doc) = Some doc1 \<and> same_structure doc doc1"
  by (simp add: initMarkerVisibility_def split: option.splits)

lemma tagged_bindings_filter:
  "tagged_bindings doc (filter (\<lambda>el. dataSpaceId (doc ! el) \<noteq> None) els) = tagged_bindings doc els"
  by (induction els) (auto simp: tagged_bindings_def)

lemma fst_tagged_bindings: "map fst (tagged_bindings doc els) = filter (has_tag doc) els"
  by (induction els) (auto simp: tagged_bindings_def has_tag_def split: option.splits)





text \<open>After a space whose lookup throws, no space is bound.\<close>

lemma space_bindings_throw:
  "resolve_space doc (space_id sp) = Inl e \<Longrightarrow>
   space_bindings doc claimed (pre @ sp # post) = space_bindings doc claimed pre"
proof (induction pre arbitrary: claimed)
  case Nil
  then show ?case by simp
next
  case (Cons p pre)
  then show ?case by (simp split: sum.splits option.splits)
qed

lemma attachSvgHandlers_listeners:
  assumes "buildingMarkersSvg (view_page a) = Some obj" and "contentDocument obj = Some doc"
      and "clickListeners a = []" and "boundElements a = []"
      and "list_all (\<lambda>e. \<not> ghBound e) doc"
  shows "clickListeners (fst (attachSvgHandlers a)) =
           tagged_bindings doc [0..<length doc]
           @ space_bindings doc (filter (has_tag doc) [0..<length doc]) (spaces (model a))"
    and "snd (attachSvgHandlers a) = thrown_by doc (spaces (model a))"
proof -
  obtain doc1 where d1: "initMarkerVisibility (Some doc) = Some doc1"
    and st: "same_structure doc doc1"
    using initMarkerVisibility_same_structure by blast
  let ?b0 = "\<lparr>b_doc = doc1, b_listeners = [], b_bound = []\<rparr>"
  let ?els = "dynamicElements doc1"
  have fresh: "\<not> ghBound (doc ! k)" if "k < length doc" for k
    using assms(5) that by (simp add: list_all_length)
  have c0: "consistent doc (?b0, [])"
    using fresh by (simp add: consistent_def same_structure_same_markup [OF st]
        same_structure_nth_more [OF st])
  have els: "?els = filter (\<lambda>el. dataSpaceId (doc ! el) \<noteq> None) [0..<length doc]"
    unfolding dynamicElements_def same_structure_length [OF st]
    by (rule filter_cong) (simp_all add: same_structure_nth_more [OF st])
  have "distinct ?els" "\<forall>el\<in>set ?els. el < length doc" "set ?els \<inter> set [] = {}"
    by (simp_all add: els)
  from fold_bind_dynamic [OF c0 this]
  have c1: "consistent doc (fold bind_dynamic ?els (?b0, []))"
    and l0: "b_listeners (fst (fold bind_dynamic ?els (?b0, []))) = tagged_bindings doc ?els"
    by simp_all
  have "tagged_bindings doc ?els = tagged_bindings doc [0..<length doc]"
    by (simp only: els tagged_bindings_filter)
  with l0 have l1: "b_listeners (fst (fold bind_dynamic ?els (?b0, [])))
               = tagged_bindings doc [0..<length doc]"
    by simp
  obtain b1 pr1 where st1: "fold bind_dynamic ?els (?b0, []) = (b1, pr1)"
    by (cases "fold bind_dynamic ?els (?b0, [])")
  have pr1: "pr1 = filter (has_tag doc) [0..<length doc]"
    using c1 l1 by (simp add: st1 consistent_def fst_tagged_bindings)
  from forEach_bind_space [of doc b1 pr1 "spaces (model a)"] c1 l1
  have l2: "b_listeners (fst (fst (forEach bind_space (spaces (model a)) (b1, pr1))))
          = tagged_bindings doc [0..<length doc] @ space_bindings doc pr1 (spaces (model a))"
    and t2: "snd (forEach bind_space (spaces (model a)) (b1, pr1))
          = thrown_by doc (spaces (model a))"
    by (simp_all add: st1)
  show "clickListeners (fst (attachSvgHandlers a)) =
           tagged_bindings doc [0..<length doc]
           @ space_bindings doc (filter (has_tag doc) [0..<length doc]) (spaces (model a))"
    using assms(1-4) l2 by (simp add: attachSvgHandlers_def d1 Let_def st1 pr1)
  show "snd (attachSvgHandlers a) = thrown_by doc (spaces (model a))"
    using assms(1-4) t2 by (simp add: attachSvgHandlers_def d1 Let_def st1 pr1)
qed







text \<open>
  An id that is not a string. \<open>generateId\<close> gives the name \<^verbatim>\<open>Constructor\<close> the function
  \<^verbatim>\<open>Object\<close> for its id. No element has the text of that function for its id, so the
  lookup for this space calls \<^verbatim>\<open>endsWith\<close> on the function and a \<^verbatim>\<open>TypeError\<close> leaves
  \<open>attachSvgHandlers\<close>: the space before it is bound, the space after it is not,
  although its id is the id of an element.
\<close>

lemma attachSvgHandlers_function_id:
  assumes "buildingMarkersSvg (view_page a) = Some obj" and "contentDocument obj = Some doc"
      and "clickListeners a = []" and "boundElements a = []"
      and "list_all (\<lambda>e. \<not> ghBound e) doc"
      and "spaces (model a) = pre @ sp # post"
      and "list_all (\<lambda>sp. is_string (space_id sp)) pre"
      and "space_id sp = FunctionId f"
      and "getElementById doc (id_text (FunctionId f)) = None"
  shows "snd (attachSvgHandlers a) = Some TypeError"
    and "clickListeners (fst (attachSvgHandlers a)) =
           tagged_bindings doc [0..<length doc]
           @ space_bindings doc (filter (has_tag doc) [0..<length doc]) pre"
proof -
  have r: "resolve_space doc (space_id sp) = Inl TypeError"
    using assms(8,9) by (simp add: resolve_space_function)
  have "thrown_by doc (xs @ sp # post) = Some TypeError"
    if "list_all (\<lambda>sp. is_string (space_id sp)) xs" for xs
    using that
  proof (induction xs)
    case Nil
    then show ?case by (simp add: r)
  next
    case (Cons x xs)
    then obtain q where "resolve_space doc (space_id x) = Inr q"
      using resolve_space_is_string [of "space_id x" doc] by auto
    then show ?case using Cons by simp
  qed
  from this [OF assms(7)] show "snd (attachSvgHandlers a) = Some TypeError"
    using attachSvgHandlers_listeners(2) [OF assms(1-5)] by (simp add: assms(6))
  show "clickListeners (fst (attachSvgHandlers a)) =
           tagged_bindings doc [0..<length doc]
           @ space_bindings doc (filter (has_tag doc) [0..<length doc]) pre"
    using attachSvgHandlers_listeners(1) [OF assms(1-5)]
    by (simp add: assms(6) space_bindings_throw [OF r])
qed

lemma constructor_app_throws:
  "snd (attachSvgHandlers constructor_app) = Some TypeError
   \<and> clickListeners (fst (attachSvgHandlers constructor_app)) = [(3, StringId ''lobby'')]
   \<and> getElementById example_doc ''gym'' = Some 6"
  by code_simp

section \<open>Malformed input to the adapter\<close>

lemma and_then_Inl [simp]: "and_then (Inl e) f = Inl e"
  by (simp add: and_then_def)

lemma and_then_Inr [simp]: "and_then (Inr v) f = f v"
  by (simp add: and_then_def)

lemma and_then_isl: "isl r \<Longrightarrow> isl (and_then r f)"
  by (cases r) simp_all

lemma map_js_throws: "x \<in> set xs \<Longrightarrow> isl (f x) \<Longrightarrow> isl (map_js f xs)"
proof (induction xs)
  case Nil
  then show ?case by simp
next
  case (Cons y ys)
  show ?case
  proof (cases "f y")
    case (Inl e)
    then show ?thesis by simp
  next
    case (Inr v)
    then have "x \<in> set ys" using Cons.prems by auto
    then have "isl (map_js f ys)" using Cons by simp
    then show ?thesis using Inr by (cases "map_js f ys") simp_all
  qed
qed

lemma transformSpace_null: "sp = JNull \<or> sp = JUndefined \<Longrightarrow> isl (transformSpace coerce sp)"
  by (auto simp: transformSpace_def)

lemma transformSpaces_null_entry:
  assumes "x \<in> set sps" and "x = JNull \<or> x = JUndefined"
  shows "isl (transformSpaces coerce (JArr sps))"
proof -
  have "isl (map_js (transformSpace coerce) sps)"
    using assms by (intro map_js_throws [of x]) (auto simp: transformSpace_null)
  then show ?thesis
    by (cases "map_js (transformSpace coerce) sps") (simp_all add: transformSpaces_def)
qed

lemma transform_caught: "isl (transform_try coerce r) \<Longrightarrow> transform coerce r = empty_structure"
  by (cases "transform_try coerce r") (simp_all add: transform_def)

lemma transform_null_space_entry:
  assumes "get r ''value'' = Inr v" and "at0 v = Inr root"
      and "get root ''Spaces'' = Inr (JArr sps)" and "x \<in> set sps" and "x = JNull \<or> x = JUndefined"
  shows "transform coerce r = empty_structure"
proof -
  have "isl (transformSpaces coerce (JArr sps))"
    using assms(4,5) by (rule transformSpaces_null_entry)
  then obtain e where e: "transformSpaces coerce (JArr sps) = Inl e"
    by (cases "transformSpaces coerce (JArr sps)") simp_all
  have "isl (transform_try coerce r)"
    using assms(1-3)
    by (cases "get v ''length''"; cases "transformPageMetadata coerce root")
      (simp_all add: transform_try_def e)
  then show ?thesis by (rule transform_caught)
qed

text \<open>
  C8 (as amended). \<open>transform\<close> returns a value for every input (what is thrown
  inside is caught), and that value is the empty structure when the input is
  \<^verbatim>\<open>null\<close> or \<^verbatim>\<open>undefined\<close>, when its \<^verbatim>\<open>value\<close> is missing or falsy, when \<^verbatim>\<open>value\<close>
  is the empty array, and whenever the transformation of the first element throws,
  as it does for a first element \<^verbatim>\<open>null\<close> and for a space entry that is \<^verbatim>\<open>null\<close> or
  \<^verbatim>\<open>undefined\<close>; when nothing is thrown the result is the transformed data.
  \<open>fetchData\<close> gives the empty structure when the request fails, when the response
  is not ok and when its body does not parse; otherwise, with the adapter loaded, it
  gives what \<open>transform\<close> gives. It takes the outcome of one fetch: there is no retry.
\<close>

theorem transform_fails_closed:
  "transform coerce JNull = empty_structure
   \<and> transform coerce JUndefined = empty_structure
   \<and> (\<forall>r. \<not> truthy r \<longrightarrow> transform coerce r = empty_structure)
   \<and> (\<forall>r v. get r ''value'' = Inr v \<and> \<not> truthy v \<longrightarrow> transform coerce r = empty_structure)
   \<and> (\<forall>r. get r ''value'' = Inr (JArr []) \<longrightarrow> transform coerce r = empty_structure)
   \<and> (\<forall>r e. transform_try coerce r = Inl e \<longrightarrow> transform coerce r = empty_structure)
   \<and> (\<forall>r v. transform_try coerce r = Inr v \<longrightarrow> transform coerce r = v)
   \<and> (\<forall>r rest. get r ''value'' = Inr (JArr (JNull # rest)) \<longrightarrow>
         transform coerce r = empty_structure)
   \<and> (\<forall>r v root sps x. get r ''value'' = Inr v \<and> at0 v = Inr root
         \<and> get root ''Spaces'' = Inr (JArr sps) \<and> x \<in> set sps \<and> (x = JNull \<or> x = JUndefined)
         \<longrightarrow> transform coerce r = empty_structure)
   \<and> fetchData coerce adapter_defined NetworkFailure = empty_structure
   \<and> fetchData coerce adapter_defined (Response False body) = empty_structure
   \<and> fetchData coerce adapter_defined (Response True None) = empty_structure
   \<and> fetchData coerce True (Response True (Some rawData)) = transform coerce rawData"
proof -
  have a: "transform coerce r = empty_structure"
    if "get r ''value'' = Inr v \<and> \<not> truthy v" for r v
    using that by (simp add: transform_def transform_try_def)
  have b: "transform coerce r = empty_structure" if "get r ''value'' = Inr (JArr [])" for r
    using that by (simp add: transform_def transform_try_def)
  have c: "transform coerce r = empty_structure"
    if "get r ''value'' = Inr (JArr (JNull # rest))" for r rest
    using that by (simp add: transform_def transform_try_def transformPageMetadata_def)
  have d: "transform coerce r = empty_structure"
    if "get r ''value'' = Inr v \<and> at0 v = Inr root
         \<and> get root ''Spaces'' = Inr (JArr sps) \<and> x \<in> set sps \<and> (x = JNull \<or> x = JUndefined)"
    for r v root sps x
    using that transform_null_space_entry by blast
  have e: "transform coerce r = empty_structure" if "transform_try coerce r = Inl e" for r e
    using that by (simp add: transform_def)
  have f: "transform coerce r = v" if "transform_try coerce r = Inr v" for r v
    using that by (simp add: transform_def)
  have n: "transform coerce JNull = empty_structure"
    "transform coerce JUndefined = empty_structure"
    by (simp_all add: transform_def transform_try_def)
  have m: "transform coerce r = empty_structure" if "\<not> truthy r" for r
    using that by (simp add: transform_def transform_try_def)
  have g: "fetchData coerce adapter_defined NetworkFailure = empty_structure"
    "fetchData coerce adapter_defined (Response False body) = empty_structure"
    "fetchData coerce adapter_defined (Response True None) = empty_structure"
    "fetchData coerce True (Response True (Some rawData)) = transform coerce rawData"
    by (simp_all add: fetchData_def)
  show ?thesis
    using a b c d e f n m g by blast
qed

lemma malformed_value:
  "transform no_coercion malformed_response =
     JObj
      [(''pageMetadata'',
        JObj
         [(''title'', JStr ''K-12 Education''),
          (''heroSection'',
           JObj
            [(''backgroundImage'', JStr ''./Content/imgs/k-12-hero-bg.png''),
             (''title'', JStr []), (''description'', JStr []),
             (''actions'', JArr [])]),
          (''modalMapImage'', JStr ''./Content/imgs/k-12-map.svg''),
          (''modalMarkersImage'', JStr ''./Content/imgs/k-12-markers.svg'')]),
       (''spaces'',
        JArr
         [JObj
           [(''id'', JStr ''unknown-space''), (''name'', JUndefined),
            (''systemName'', JUndefined),
            (''markerImg'',
             JStr ''./Content/imgs/Space Pins and Labels with Popover/unknown-space.svg''),
            (''overview'',
             JObj
              [(''title'', JStr []), (''body'', JStr []),
               (''bgImg'',
                JStr ''./Content/imgs/Space Pins and Labels with Popover/unknown-space-overview.png'')]),
            (''systemEquipment'', JArr []),
            (''designNarrative'',
             JObj
              [(''title'', JStr []), (''body'', JStr []),
               (''img'', JStr ''./Content/imgs/k-12-hero-bg.png'')])]])]"
  by code_simp

text \<open>
  The claim as stated fails for a malformed space entry that makes nothing throw: for
  a space entry that is an empty object the result is not the empty structure, it
  has the default page metadata and one space with the id \<^verbatim>\<open>unknown-space\<close>.
\<close>

theorem transform_malformed_space_counterexample:
  "malformed_response = JObj [(''value'', JArr [JObj [(''Spaces'', JArr [JObj []])]])]
   \<and> transform no_coercion malformed_response \<noteq> empty_structure
   \<and> and_then (get (transform no_coercion malformed_response) ''spaces'')
        (\<lambda>ss. map_js (\<lambda>sp. get sp ''id'') (elements ss)) = Inr [JStr ''unknown-space'']"
  by (simp add: malformed_value empty_structure_def Object_prototype_def)
    (simp add: malformed_response_def)

theorem transform_fails_closed_witness:
  "get (JObj [(''Title'', JStr ''x'')]) ''value'' = Inr JUndefined
   \<and> \<not> truthy JUndefined
   \<and> transform no_coercion (JObj [(''Title'', JStr ''x'')]) = empty_structure
   \<and> get (JObj [(''value'', JArr [])]) ''value'' = Inr (JArr [])
   \<and> transform no_coercion (JObj [(''value'', JArr [])]) = empty_structure
   \<and> JNull \<in> set [JObj [(''Title'', JStr ''School Gym'')], JNull]
   \<and> transform no_coercion null_entry_response = empty_structure
   \<and> fetchData no_coercion True (Response False (Some null_entry_response)) = empty_structure"
proof -
  have h1: "get (JObj [(''Title'', JStr ''x'')]) ''value'' = Inr JUndefined \<and> \<not> truthy JUndefined"
    by (simp add: Object_prototype_def)
  have h2: "get (JObj [(''value'', JArr [])]) ''value'' = Inr (JArr [])"
    by simp
  have h3: "get null_entry_response ''value''
              = Inr (JArr [JObj [(''Spaces'', JArr [JObj [(''Title'', JStr ''School Gym'')], JNull])]])
            \<and> at0 (JArr [JObj [(''Spaces'', JArr [JObj [(''Title'', JStr ''School Gym'')], JNull])]])
              = Inr (JObj [(''Spaces'', JArr [JObj [(''Title'', JStr ''School Gym'')], JNull])])
            \<and> get (JObj [(''Spaces'', JArr [JObj [(''Title'', JStr ''School Gym'')], JNull])]) ''Spaces''
              = Inr (JArr [JObj [(''Title'', JStr ''School Gym'')], JNull])
            \<and> JNull \<in> set [JObj [(''Title'', JStr ''School Gym'')], JNull]
            \<and> (JNull = JNull \<or> JNull = JUndefined)"
    by (simp add: null_entry_response_def)
  note t = transform_fails_closed [of no_coercion True "Some null_entry_response"]
  have a: "transform no_coercion (JObj [(''Title'', JStr ''x'')]) = empty_structure"
    using t h1 by blast
  have b: "transform no_coercion (JObj [(''value'', JArr [])]) = empty_structure"
    using t h2 by blast
  have c: "transform no_coercion null_entry_response = empty_structure"
    using t h3 by blast
  have d: "fetchData no_coercion True (Response False (Some null_entry_response)) = empty_structure"
    using t by blast
  show ?thesis
    using h1 h2 a b c d by simp
qed

end
